theory Spec2Isabelle
  imports Main
begin

section \<open>JavaScript values under validation\<close>

text \<open>
  The matcher of \<^verbatim>\<open>src/index.ts\<close> takes \<^verbatim>\<open>data: unknown\<close>. It observes a value only
  through \<^verbatim>\<open>typeof\<close>, truthiness, \<^verbatim>\<open>===\<close>, \<^verbatim>\<open>instanceof Date\<close>,
  \<^verbatim>\<open>Array.isArray\<close>, \<^verbatim>\<open>.length\<close>, property reads, the \<^verbatim>\<open>in\<close> operator and
  \<^verbatim>\<open>for ... in\<close>. Primitives are values; objects live in a store and are denoted
  by their address, so that two references can be identical and a data graph can be cyclic.

  Numbers are the integral values and \<^verbatim>\<open>NaN\<close>: the code applies only \<^verbatim>\<open>typeof\<close>
  and \<^verbatim>\<open>===\<close> to a number, for which a fractional or infinite value behaves like any
  other number. \<open>PNumber n\<close> is the number whose value is the integer \<open>n\<close>; an
  integer that no double has (some beyond \<open>2^53\<close>) stands for no value of the program.
  Symbols, functions, proxies and accessor properties are outside the model.
\<close>

datatype prim =
    PUndefined
  | PNull
  | PBoolean bool
  | PNumber int
  | PNaN
  | PString string
  | PBigint int

datatype jsval = Prim prim | Ref nat

abbreviation JUndefined :: jsval where "JUndefined \<equiv> Prim PUndefined"
abbreviation JNull :: jsval where "JNull \<equiv> Prim PNull"
abbreviation JBoolean :: "bool \<Rightarrow> jsval" where "JBoolean b \<equiv> Prim (PBoolean b)"
abbreviation JNumber :: "int \<Rightarrow> jsval" where "JNumber n \<equiv> Prim (PNumber n)"
abbreviation JString :: "string \<Rightarrow> jsval" where "JString s \<equiv> Prim (PString s)"
abbreviation JBigint :: "int \<Rightarrow> jsval" where "JBigint n \<equiv> Prim (PBigint n)"

datatype objkind = PlainObject | ArrayObject | DateObject

text \<open>
  An object: its kind, its elements when it is an array, its enumerable string-keyed
  properties in the order \<^verbatim>\<open>for ... in\<close> visits them, and the properties that
  \<^verbatim>\<open>in\<close> and a property read see but \<^verbatim>\<open>for ... in\<close> does not visit (non-enumerable
  own properties and non-enumerable properties inherited from the prototype chain, such
  as \<^verbatim>\<open>toString\<close>). An array's \<^verbatim>\<open>length\<close> is of the second sort and is derived from
  the elements.

  The last field says whether the template literal \<^verbatim>\<open>`${object}`\<close> yields a string. It
  throws a TypeError instead when no callable \<^verbatim>\<open>toString\<close> or \<^verbatim>\<open>valueOf\<close> of the
  object gives a primitive: for the parsed JSON \<^verbatim>\<open>{"toString": 1}\<close>, for an object with
  no prototype, for an array that holds such an object. No value of the model is callable,
  so a plain object that has a property \<^verbatim>\<open>toString\<close> of its own does not convert.
\<close>

record obj =
  kind :: objkind
  elems :: "jsval list"
  enumerable :: "(string \<times> jsval) list"
  nonenumerable :: "(string \<times> jsval) list"
  stringifies :: bool

type_synonym heap = "nat \<Rightarrow> obj"

text \<open>
  An array of primitives (its conversion joins those of the elements), the plain object
  with the given properties of its own, as an object literal or \<^verbatim>\<open>JSON.parse\<close> builds
  it, and a Date.
\<close>

definition js_array :: "prim list \<Rightarrow> obj" where
  "js_array ps =
     \<lparr>kind = ArrayObject, elems = map Prim ps, enumerable = [], nonenumerable = [],
      stringifies = True\<rparr>"

definition js_object :: "(string \<times> jsval) list \<Rightarrow> obj" where
  "js_object ps =
     \<lparr>kind = PlainObject, elems = [], enumerable = ps, nonenumerable = [],
      stringifies = (''toString'' \<notin> set (map fst ps))\<rparr>"

definition js_date :: obj where
  "js_date =
     \<lparr>kind = DateObject, elems = [], enumerable = [], nonenumerable = [], stringifies = True\<rparr>"

subsection \<open>Number to string\<close>

text \<open>
  The decimal text of an index, as \<^verbatim>\<open>`${path}.${i}`\<close> gives it. (An index of the
  program is below \<open>2^32\<close>, where the text of a number is its decimal numeral.)
\<close>

definition digit_char :: "nat \<Rightarrow> char" where
  "digit_char d = ''0123456789'' ! d"

function string_of_nat :: "nat \<Rightarrow> string" where
  "string_of_nat n =
     (if n < 10 then [digit_char n] else string_of_nat (n div 10) @ [digit_char (n mod 10)])"
  by pat_completeness auto
termination
  by (relation "measure id") auto

declare string_of_nat.simps [simp del]

subsection \<open>The observations the matcher makes\<close>

datatype jstype = TUndefined | TObject | TBoolean | TNumber | TString | TBigint

fun typeof :: "jsval \<Rightarrow> jstype" where
  "typeof (Prim PUndefined) = TUndefined"
| "typeof (Prim PNull) = TObject"
| "typeof (Prim (PBoolean b)) = TBoolean"
| "typeof (Prim (PNumber n)) = TNumber"
| "typeof (Prim PNaN) = TNumber"
| "typeof (Prim (PString s)) = TString"
| "typeof (Prim (PBigint n)) = TBigint"
| "typeof (Ref a) = TObject"

text \<open>\<^verbatim>\<open>!data\<close> is \<^verbatim>\<open>\<not> truthy data\<close>.\<close>

fun truthy :: "jsval \<Rightarrow> bool" where
  "truthy (Prim PUndefined) = False"
| "truthy (Prim PNull) = False"
| "truthy (Prim (PBoolean b)) = b"
| "truthy (Prim (PNumber n)) = (n \<noteq> 0)"
| "truthy (Prim PNaN) = False"
| "truthy (Prim (PString s)) = (s \<noteq> [])"
| "truthy (Prim (PBigint n)) = (n \<noteq> 0)"
| "truthy (Ref a) = True"

text \<open>\<^verbatim>\<open>data === v\<close> for a primitive \<^verbatim>\<open>v\<close>: \<^verbatim>\<open>NaN\<close> equals nothing, an object equals no primitive.\<close>

fun strict_eq :: "jsval \<Rightarrow> prim \<Rightarrow> bool" where
  "strict_eq (Prim p) q = (p = q \<and> p \<noteq> PNaN)"
| "strict_eq (Ref a) q = False"

fun is_array :: "heap \<Rightarrow> jsval \<Rightarrow> bool" where
  "is_array h (Ref a) = (kind (h a) = ArrayObject)"
| "is_array h (Prim p) = False"

fun instanceof_Date :: "heap \<Rightarrow> jsval \<Rightarrow> bool" where
  "instanceof_Date h (Ref a) = (kind (h a) = DateObject)"
| "instanceof_Date h (Prim p) = False"

text \<open>
  Whether \<^verbatim>\<open>`${data}`\<close> yields a string: every primitive of the model does, an object
  as the store says.
\<close>

fun converts_to_string :: "heap \<Rightarrow> jsval \<Rightarrow> bool" where
  "converts_to_string h (Prim p) = True"
| "converts_to_string h (Ref a) = stringifies (h a)"

text \<open>\<^verbatim>\<open>data[i]\<close> on an array: past the end the read gives \<^verbatim>\<open>undefined\<close>.\<close>

definition arr_get :: "jsval list \<Rightarrow> nat \<Rightarrow> jsval" where
  "arr_get xs i = (if i < length xs then xs ! i else JUndefined)"

definition index_keys :: "obj \<Rightarrow> string list" where
  "index_keys ob = map string_of_nat [0..<length (elems ob)]"

text \<open>The keys \<^verbatim>\<open>for(const key in object)\<close> visits, in order.\<close>

definition for_in_keys :: "obj \<Rightarrow> string list" where
  "for_in_keys ob = index_keys ob @ map fst (enumerable ob)"

text \<open>\<^verbatim>\<open>key in object\<close>.\<close>

definition has_property :: "obj \<Rightarrow> string \<Rightarrow> bool" where
  "has_property ob k \<longleftrightarrow>
     k \<in> set (index_keys ob)
     \<or> (kind ob = ArrayObject \<and> k = ''length'')
     \<or> k \<in> set (map fst (enumerable ob))
     \<or> k \<in> set (map fst (nonenumerable ob))"

text \<open>\<^verbatim>\<open>object[key]\<close>.\<close>

definition get_property :: "obj \<Rightarrow> string \<Rightarrow> jsval" where
  "get_property ob k =
     (case find (\<lambda>i. string_of_nat i = k) [0..<length (elems ob)] of
        Some i \<Rightarrow> elems ob ! i
      | None \<Rightarrow>
          if kind ob = ArrayObject \<and> k = ''length'' then JNumber (int (length (elems ob)))
          else (case map_of (enumerable ob) k of
                  Some v \<Rightarrow> v
                | None \<Rightarrow> (case map_of (nonenumerable ob) k of Some v \<Rightarrow> v | None \<Rightarrow> JUndefined)))"

section \<open>Shapes (\<^verbatim>\<open>src/types.ts\<close>)\<close>

datatype TupleElementType = Required | Optional | Variable

datatype Shape =
    String
  | Number
  | Boolean
  | Unknown
  | Bigint
  | Date
  | Object "ObjectMember list"
  | Array Shape
  | Tuple "(Shape \<times> TupleElementType) list"
  | Literal prim
  | Union "Shape list"
  | Intersection "Shape list"
  | Reference "int list"
and ObjectMember =
    Property string Shape bool
  | IndexSignature Shape


section \<open>The reference resolver\<close>

text \<open>
  At run time a Shape is a number (a leaf kind) or an array whose cell 0 is the kind tag
  (\<^verbatim>\<open>enum Types\<close>: String 0, Number 1, Boolean 2, Unknown 3, Bigint 4, Object 5, Array 6,
  Tuple 7, Literal 8, Union 9, Intersection 10, Date 11, Reference 12). An object member is
  the array \<^verbatim>\<open>[0, key, shape]\<close>, \<^verbatim>\<open>[0, key, shape, true]\<close> or \<^verbatim>\<open>[1, shape]\<close>; a tuple
  item is \<^verbatim>\<open>[shape]\<close>, \<^verbatim>\<open>[shape, 1]\<close> or \<^verbatim>\<open>[shape, 2]\<close>. The resolver
  \<^verbatim>\<open>target = target[rootPath[i]]\<close> indexes these arrays, so it can reach any cell.
\<close>

datatype node =
    NShape Shape
  | NMember ObjectMember
  | NItem Shape TupleElementType
  | NPrim prim

fun cells :: "node \<Rightarrow> node list" where
  "cells (NShape (Object ms)) = NPrim (PNumber 5) # map NMember ms"
| "cells (NShape (Array s)) = [NPrim (PNumber 6), NShape s]"
| "cells (NShape (Tuple items)) = NPrim (PNumber 7) # map (\<lambda>(s, t). NItem s t) items"
| "cells (NShape (Literal v)) = [NPrim (PNumber 8), NPrim v]"
| "cells (NShape (Union options)) = NPrim (PNumber 9) # map NShape options"
| "cells (NShape (Intersection members)) = NPrim (PNumber 10) # map NShape members"
| "cells (NShape (Reference rootPath)) = NPrim (PNumber 12) # map (\<lambda>i. NPrim (PNumber i)) rootPath"
| "cells (NShape s) = []"
| "cells (NMember (Property key s opt)) =
     [NPrim (PNumber 0), NPrim (PString key), NShape s] @ (if opt then [NPrim (PBoolean True)] else [])"
| "cells (NMember (IndexSignature s)) = [NPrim (PNumber 1), NShape s]"
| "cells (NItem s Required) = [NShape s]"
| "cells (NItem s Optional) = [NShape s, NPrim (PNumber 1)]"
| "cells (NItem s Variable) = [NShape s, NPrim (PNumber 2)]"
| "cells (NPrim (PString s)) = map (\<lambda>c. NPrim (PString [c])) s"
| "cells (NPrim p) = []"

text \<open>
  \<^verbatim>\<open>target[i]\<close>: \<open>None\<close> is the TypeError of reading a property of \<^verbatim>\<open>undefined\<close> or
  \<^verbatim>\<open>null\<close>; a cell that does not exist reads as \<^verbatim>\<open>undefined\<close>.
\<close>

fun index_node :: "node \<Rightarrow> int \<Rightarrow> node option" where
  "index_node (NPrim PUndefined) i = None"
| "index_node (NPrim PNull) i = None"
| "index_node t i =
     Some (if 0 \<le> i \<and> nat i < length (cells t) then cells t ! nat i else NPrim PUndefined)"

fun resolve_from :: "node \<Rightarrow> int list \<Rightarrow> node option" where
  "resolve_from target [] = Some target"
| "resolve_from target (i # rootPath) =
     (case index_node target i of None \<Rightarrow> None | Some t \<Rightarrow> resolve_from t rootPath)"

definition resolve :: "Shape \<Rightarrow> int list \<Rightarrow> node option" where
  "resolve root rootPath = resolve_from (NShape root) rootPath"

text \<open>
  What \<^verbatim>\<open>walk(data, target, path)\<close> dispatches on: a Shape; a value that matches no
  \<^verbatim>\<open>case\<close> of either \<^verbatim>\<open>switch\<close>, for which \<^verbatim>\<open>walk\<close> returns \<^verbatim>\<open>undefined\<close>; or
  \<^verbatim>\<open>undefined\<close>/\<^verbatim>\<open>null\<close>, for which \<^verbatim>\<open>shape[0]\<close> throws.
\<close>

datatype target = TShape Shape | TNoCase | TNotIndexable

fun as_target :: "node \<Rightarrow> target" where
  "as_target (NShape s) = TShape s"
| "as_target (NPrim (PNumber n)) =
     (if n = 0 then TShape String else if n = 1 then TShape Number
      else if n = 2 then TShape Boolean else if n = 3 then TShape Unknown
      else if n = 4 then TShape Bigint else if n = 11 then TShape Date else TNoCase)"
| "as_target (NPrim PUndefined) = TNotIndexable"
| "as_target (NPrim PNull) = TNotIndexable"
| "as_target (NPrim p) = TNoCase"
| "as_target (NMember m) = TNoCase"
| "as_target (NItem s t) = TNoCase"

section \<open>Errors and results\<close>

text \<open>
  A \<^verbatim>\<open>ParserError\<close> is kept as the parts of its message: the error of
  \<^verbatim>\<open>fail(path, expected, data)\<close> is \<open>Mismatch\<close> with the path, the expected part and
  the offending value; the error of a Union with no matching branch is \<open>NoBranch\<close> with
  the path and the branch errors in the order they were pushed. The expected part is a
  fixed text or, for a Literal shape, the text \<^verbatim>\<open>`${shape[1]}`\<close> of the literal, kept as
  the literal.
\<close>

datatype expected = Text string | LiteralText prim

datatype ParserError =
    Mismatch string expected jsval
  | NoBranch string "ParserError list"

text \<open>
  What a call can throw: the \<^verbatim>\<open>Error\<close> of \<^verbatim>\<open>validate\<close> for a missing Shape, a
  TypeError (from a Reference whose target is not indexable, or from \<^verbatim>\<open>fail\<close> on data
  that does not convert to a string), a \<^verbatim>\<open>ParserError\<close> (thrown by \<^verbatim>\<open>cast\<close> only).
\<close>

datatype thrown = ConfigurationError | TypeError | ValidationError ParserError

text \<open>
  \<^verbatim>\<open>walk\<close> returns \<^verbatim>\<open>undefined\<close> (\<open>Pass\<close>), returns a \<^verbatim>\<open>ParserError\<close> (\<open>Reject\<close>)
  or throws.
\<close>

datatype verdict = Pass | Reject ParserError | Throw thrown

text \<open>
  \<^verbatim>\<open>return fail(path, expected, data)\<close>: the message is built with \<^verbatim>\<open>`${data}`\<close>, so
  the call throws a TypeError when the data does not convert to a string, and returns the
  error otherwise.
\<close>

definition fail :: "heap \<Rightarrow> string \<Rightarrow> expected \<Rightarrow> jsval \<Rightarrow> verdict" where
  "fail h path expected data =
     (if converts_to_string h data then Reject (Mismatch path expected data) else Throw TypeError)"

text \<open>A loop body either goes on with the loop's variables or leaves \<^verbatim>\<open>walk\<close>.\<close>

datatype 'a flow = Continue 'a | Return verdict

text \<open>
  \<^verbatim>\<open>const error = walk(...); if(error) return error;\<close> followed by the rest. \<open>None\<close>
  is a call that did not return within the recursion budget.
\<close>

definition and_then :: "verdict option \<Rightarrow> verdict option \<Rightarrow> verdict option" where
  "and_then r rest = (case r of Some Pass \<Rightarrow> rest | _ \<Rightarrow> r)"

section \<open>The loops of \<^verbatim>\<open>walk\<close>\<close>

text \<open>
  Each loop takes \<open>w\<close>, the recursive call \<^verbatim>\<open>walk\<close> (at the remaining recursion
  budget).
\<close>

type_synonym walker = "jsval \<Rightarrow> Shape \<Rightarrow> string \<Rightarrow> verdict option"

text \<open>\<^verbatim>\<open>for(const key in object)\<close> of an IndexSignature member.\<close>

fun index_loop :: "walker \<Rightarrow> obj \<Rightarrow> Shape \<Rightarrow> string \<Rightarrow> string list \<Rightarrow> verdict option" where
  "index_loop w ob s path [] = Some Pass"
| "index_loop w ob s path (key # keys) =
     and_then (w (get_property ob key) s (path @ ''.'' @ key)) (index_loop w ob s path keys)"

text \<open>One member of an Object shape.\<close>

fun member_step :: "heap \<Rightarrow> walker \<Rightarrow> obj \<Rightarrow> string \<Rightarrow> ObjectMember \<Rightarrow> verdict option" where
  "member_step h w ob path (Property key s opt) =
     (let newPath = path @ ''.'' @ key in
      if \<not> has_property ob key then
        (if opt then Some Pass else Some (fail h newPath (Text ''defined'') (JString ''undefined'')))
      else w (get_property ob key) s newPath)"
| "member_step h w ob path (IndexSignature s) = index_loop w ob s path (for_in_keys ob)"

fun member_loop :: "heap \<Rightarrow> walker \<Rightarrow> obj \<Rightarrow> string \<Rightarrow> ObjectMember list \<Rightarrow> verdict option" where
  "member_loop h w ob path [] = Some Pass"
| "member_loop h w ob path (property # properties) =
     and_then (member_step h w ob path property) (member_loop h w ob path properties)"

text \<open>\<^verbatim>\<open>for(let i = 0; i < data.length; ++i)\<close> of an Array shape, from index \<open>i\<close> on.\<close>

fun array_loop :: "walker \<Rightarrow> jsval list \<Rightarrow> Shape \<Rightarrow> string \<Rightarrow> nat \<Rightarrow> verdict option" where
  "array_loop w [] s path i = Some Pass"
| "array_loop w (x # xs) s path i =
     and_then (w x s (path @ ''.'' @ string_of_nat i)) (array_loop w xs s path (Suc i))"

text \<open>The Optional/Variable branch of a tuple item: the loop on \<^verbatim>\<open>max\<close>.\<close>

function tuple_lookahead ::
  "walker \<Rightarrow> jsval list \<Rightarrow> Shape \<Rightarrow> TupleElementType \<Rightarrow> string \<Rightarrow> nat \<Rightarrow> nat flow option" where
  "tuple_lookahead w xs s type path mx =
     (if mx < length xs then
        (case w (arr_get xs mx) s (path @ ''.'' @ string_of_nat mx) of
           None \<Rightarrow> None
         | Some (Throw t) \<Rightarrow> Some (Return (Throw t))
         | Some (Reject e) \<Rightarrow> Some (Continue mx)
         | Some Pass \<Rightarrow>
             if type = Optional then Some (Continue (Suc mx))
             else tuple_lookahead w xs s type path (Suc mx))
      else Some (Continue mx))"
  by pat_completeness auto
termination
  by (relation "measure (\<lambda>(w, xs, s, type, path, mx). length xs - mx)") auto

declare tuple_lookahead.simps [simp del]

text \<open>The Required branch of a tuple item: the loop on \<^verbatim>\<open>min\<close>.\<close>

function tuple_required ::
  "walker \<Rightarrow> jsval list \<Rightarrow> Shape \<Rightarrow> string \<Rightarrow> nat \<Rightarrow> nat \<Rightarrow> (nat \<times> nat) flow option" where
  "tuple_required w xs s path mn mx =
     (case w (arr_get xs mn) s (path @ ''.'' @ string_of_nat mn) of
        None \<Rightarrow> None
      | Some (Throw t) \<Rightarrow> Some (Return (Throw t))
      | Some Pass \<Rightarrow> Some (Continue (Suc mn, if Suc mn \<ge> mx then Suc mn else mx))
      | Some (Reject e) \<Rightarrow>
          if Suc mn > mx then Some (Return (Reject e))
          else tuple_required w xs s path (Suc mn) mx)"
  by pat_completeness auto
termination
  by (relation "measure (\<lambda>(w, xs, s, path, mn, mx). Suc mx - mn)") auto

declare tuple_required.simps [simp del]

text \<open>The loop over the items of a Tuple shape and the check after it.\<close>

fun tuple_loop ::
  "heap \<Rightarrow> walker \<Rightarrow> jsval \<Rightarrow> jsval list \<Rightarrow> string \<Rightarrow> (Shape \<times> TupleElementType) list \<Rightarrow> nat \<Rightarrow> nat
     \<Rightarrow> verdict option" where
  "tuple_loop h w data xs path [] mn mx =
     (if mx < length xs then Some (fail h path (Text ''a tuple'') data) else Some Pass)"
| "tuple_loop h w data xs path ((s, type) # items) mn mx =
     (if type \<noteq> Required then
        (case tuple_lookahead w xs s type path mx of
           None \<Rightarrow> None
         | Some (Return v) \<Rightarrow> Some v
         | Some (Continue mx') \<Rightarrow> tuple_loop h w data xs path items mn mx')
      else
        (case tuple_required w xs s path mn mx of
           None \<Rightarrow> None
         | Some (Return v) \<Rightarrow> Some v
         | Some (Continue (mn', mx')) \<Rightarrow> tuple_loop h w data xs path items mn' mx'))"

text \<open>The loop over the options of a Union shape, with the errors pushed so far.\<close>

fun union_loop ::
  "walker \<Rightarrow> jsval \<Rightarrow> string \<Rightarrow> Shape list \<Rightarrow> ParserError list \<Rightarrow> verdict option" where
  "union_loop w data path [] errors = Some (Reject (NoBranch path errors))"
| "union_loop w data path (option # options) errors =
     (case w data option path of
        None \<Rightarrow> None
      | Some Pass \<Rightarrow> Some Pass
      | Some (Reject error) \<Rightarrow> union_loop w data path options (errors @ [error])
      | Some (Throw t) \<Rightarrow> Some (Throw t))"

text \<open>The loop over the members of an Intersection shape.\<close>

fun intersection_loop :: "walker \<Rightarrow> jsval \<Rightarrow> string \<Rightarrow> Shape list \<Rightarrow> verdict option" where
  "intersection_loop w data path [] = Some Pass"
| "intersection_loop w data path (member # members) =
     and_then (w data member path) (intersection_loop w data path members)"

section \<open>\<^verbatim>\<open>walk\<close>, \<^verbatim>\<open>validate\<close> and the public functions\<close>

text \<open>
  \<^verbatim>\<open>walk\<close> can recurse without end (a Reference leads back into the root), so it takes a
  recursion budget: \<open>walk n\<close> is the call that may nest \<open>n\<close> calls deep, and \<open>None\<close>
  says the budget was exceeded. The call returns when some budget gives \<open>Some\<close>, and
  does not return when every budget gives \<open>None\<close>.

  In the Object, Array and Tuple cases the data that passed the test is an object
  reference; the branch for a primitive is never reached.
\<close>

fun walk :: "nat \<Rightarrow> heap \<Rightarrow> Shape \<Rightarrow> jsval \<Rightarrow> Shape \<Rightarrow> string \<Rightarrow> verdict option" where
  "walk 0 h root data shape path = None"
| "walk (Suc n) h root data String path =
     Some (if typeof data = TString then Pass else fail h path (Text ''a string'') data)"
| "walk (Suc n) h root data Number path =
     Some (if typeof data = TNumber then Pass else fail h path (Text ''a number'') data)"
| "walk (Suc n) h root data Boolean path =
     Some (if typeof data = TBoolean then Pass else fail h path (Text ''a boolean'') data)"
| "walk (Suc n) h root data Unknown path = Some Pass"
| "walk (Suc n) h root data Bigint path =
     Some (if typeof data = TBigint then Pass else fail h path (Text ''a bigint'') data)"
| "walk (Suc n) h root data Date path =
     Some (if instanceof_Date h data then Pass else fail h path (Text ''a date'') data)"
| "walk (Suc n) h root data (Object properties) path =
     (if \<not> truthy data \<or> typeof data \<noteq> TObject then Some (fail h path (Text ''an object'') data)
      else (case data of
              Ref a \<Rightarrow> member_loop h (\<lambda>d s p. walk n h root d s p) (h a) path properties
            | Prim p \<Rightarrow> Some (Throw TypeError)))"
| "walk (Suc n) h root data (Array s) path =
     (if \<not> is_array h data then Some (fail h path (Text ''an array'') data)
      else (case data of
              Ref a \<Rightarrow> array_loop (\<lambda>d s p. walk n h root d s p) (elems (h a)) s path 0
            | Prim p \<Rightarrow> Some (Throw TypeError)))"
| "walk (Suc n) h root data (Tuple items) path =
     (if \<not> is_array h data then Some (fail h path (Text ''a tuple'') data)
      else (case data of
              Ref a \<Rightarrow> tuple_loop h (\<lambda>d s p. walk n h root d s p) data (elems (h a)) path items 0 0
            | Prim p \<Rightarrow> Some (Throw TypeError)))"
| "walk (Suc n) h root data (Literal v) path =
     Some (if strict_eq data v then Pass else fail h path (LiteralText v) data)"
| "walk (Suc n) h root data (Union options) path =
     union_loop (\<lambda>d s p. walk n h root d s p) data path options []"
| "walk (Suc n) h root data (Intersection members) path =
     intersection_loop (\<lambda>d s p. walk n h root d s p) data path members"
| "walk (Suc n) h root data (Reference rootPath) path =
     (case resolve root rootPath of
        None \<Rightarrow> Some (Throw TypeError)
      | Some target \<Rightarrow>
          (case as_target target of
             TShape s \<Rightarrow> walk n h root data s path
           | TNoCase \<Rightarrow> Some Pass
           | TNotIndexable \<Rightarrow> Some (Throw TypeError)))"

text \<open>The \<^verbatim>\<open>shape\<close> argument of the public functions: \<^verbatim>\<open>shape?: never\<close>, seen at run time.\<close>

datatype shape_arg = ShapeUndefined | ShapeNull | ShapeValue Shape

fun validate :: "nat \<Rightarrow> heap \<Rightarrow> jsval \<Rightarrow> shape_arg \<Rightarrow> verdict option" where
  "validate n h data ShapeUndefined = Some (Throw ConfigurationError)"
| "validate n h data ShapeNull = Some (Throw ConfigurationError)"
| "validate n h data (ShapeValue root) = walk n h root data root ''root''"

text \<open>
  A public function returns a value (\<open>Inr\<close>) or throws (\<open>Inl\<close>). \<^verbatim>\<open>is\<close> is a
  keyword of Isabelle, so the function \<^verbatim>\<open>is<T>\<close> is \<open>is_T\<close>.
\<close>

definition is_T :: "nat \<Rightarrow> heap \<Rightarrow> jsval \<Rightarrow> shape_arg \<Rightarrow> (thrown + bool) option" where
  "is_T n h data shape =
     (case validate n h data shape of
        None \<Rightarrow> None
      | Some Pass \<Rightarrow> Some (Inr True)
      | Some (Reject error) \<Rightarrow> Some (Inr False)
      | Some (Throw t) \<Rightarrow> Some (Inl t))"

definition createIs :: "nat \<Rightarrow> heap \<Rightarrow> shape_arg \<Rightarrow> jsval \<Rightarrow> (thrown + bool) option" where
  "createIs n h shape = (\<lambda>data. is_T n h data shape)"

definition cast :: "nat \<Rightarrow> heap \<Rightarrow> jsval \<Rightarrow> shape_arg \<Rightarrow> (thrown + jsval) option" where
  "cast n h data shape =
     (case validate n h data shape of
        None \<Rightarrow> None
      | Some Pass \<Rightarrow> Some (Inr data)
      | Some (Reject error) \<Rightarrow> Some (Inl (ValidationError error))
      | Some (Throw t) \<Rightarrow> Some (Inl t))"

definition createCast :: "nat \<Rightarrow> heap \<Rightarrow> shape_arg \<Rightarrow> jsval \<Rightarrow> (thrown + jsval) option" where
  "createCast n h shape = (\<lambda>data. cast n h data shape)"


section \<open>Auxiliary definitions for the statements\<close>

text \<open>A store holding the given objects at the addresses 0, 1, ...\<close>

definition store :: "obj list \<Rightarrow> heap" where
  "store os = (\<lambda>a. if a < length os then os ! a else js_object [])"

fun member_shape :: "ObjectMember \<Rightarrow> Shape" where
  "member_shape (Property key s opt) = s"
| "member_shape (IndexSignature s) = s"

text \<open>The test of element \<open>i\<close> of the data against a tuple item's shape.\<close>

abbreviation item_test :: "walker \<Rightarrow> jsval list \<Rightarrow> Shape \<Rightarrow> string \<Rightarrow> nat \<Rightarrow> verdict option" where
  "item_test w xs s path i \<equiv> w (arr_get xs i) s (path @ ''.'' @ string_of_nat i)"





text \<open>
  Shapes that admit an absent value by their form: Unknown, the Literal \<^verbatim>\<open>undefined\<close>, a
  Union with such an option, an Intersection of such members, and a Reference (its target
  decides).
\<close>

fun admits_absent :: "Shape \<Rightarrow> bool" where
  "admits_absent Unknown = True"
| "admits_absent (Literal v) = (v = PUndefined)"
| "admits_absent (Union options) = list_ex admits_absent options"
| "admits_absent (Intersection members) = list_all admits_absent members"
| "admits_absent (Reference rootPath) = True"
| "admits_absent s = False"

text \<open>Reading a decimal numeral back, the inverse of \<open>string_of_nat\<close>.\<close>

definition digit_val :: "char \<Rightarrow> nat" where
  "digit_val c = of_char c - 48"

definition nat_of_string :: "string \<Rightarrow> nat" where
  "nat_of_string cs = foldl (\<lambda>a c. 10 * a + digit_val c) 0 cs"

text \<open>
  The self-referential shape of a linked list, \<^verbatim>\<open>{value: number, next: T} | null\<close>, with
  the recursive occurrence as a Reference to the root.
\<close>

definition linked_list_shape :: Shape where
  "linked_list_shape =
     Union [Object [Property ''value'' Number False, Property ''next'' (Reference []) False],
            Literal PNull]"

text \<open>
  A store in which the objects at the addresses \<open>0, ..., k - 1\<close> form a chain: each
  has a number as \<^verbatim>\<open>value\<close> and the next address as \<^verbatim>\<open>next\<close>, the last one has
  \<open>terminal\<close> as \<^verbatim>\<open>next\<close>.
\<close>

definition chain :: "nat \<Rightarrow> jsval \<Rightarrow> heap" where
  "chain k terminal =
     (\<lambda>a. js_object [(''value'', JNumber (int a)),
                      (''next'', if Suc a < k then Ref (Suc a) else terminal)])"





section \<open>Where a loop's result comes from\<close>

lemmas eval_simps = is_T_def cast_def store_def js_array_def js_object_def arr_get_def fail_def
  tuple_lookahead.simps tuple_required.simps string_of_nat.simps digit_char_def

lemmas object_simps = has_property_def get_property_def for_in_keys_def index_keys_def

lemma and_then_simps [simp]:
  "and_then None rest = None"
  "and_then (Some Pass) rest = rest"
  "and_then (Some (Reject e)) rest = Some (Reject e)"
  "and_then (Some (Throw t)) rest = Some (Throw t)"
  by (simp_all add: and_then_def)

lemma and_then_Some:
  "and_then r rest = Some v \<longleftrightarrow> (r = Some Pass \<and> rest = Some v) \<or> (r = Some v \<and> v \<noteq> Pass)"
  by (auto simp: and_then_def split: option.splits verdict.splits)

lemma and_then_None:
  "and_then r rest = None \<longleftrightarrow> r = None \<or> (r = Some Pass \<and> rest = None)"
  by (auto simp: and_then_def split: option.splits verdict.splits)

lemma fail_Prim [simp]: "fail h path x (Prim q) = Reject (Mismatch path x (Prim q))"
  by (simp add: fail_def)

lemma fail_not_Pass [simp]: "fail h path x data \<noteq> Pass" "Pass \<noteq> fail h path x data"
  by (simp_all add: fail_def)

lemma fail_Reject:
  "fail h path x data = Reject e \<longleftrightarrow> e = Mismatch path x data \<and> converts_to_string h data"
  "Reject e = fail h path x data \<longleftrightarrow> e = Mismatch path x data \<and> converts_to_string h data"
  by (auto simp: fail_def)

lemma fail_Throw:
  "fail h path x data = Throw t \<longleftrightarrow> t = TypeError \<and> \<not> converts_to_string h data"
  "Throw t = fail h path x data \<longleftrightarrow> t = TypeError \<and> \<not> converts_to_string h data"
  by (auto simp: fail_def)

text \<open>
  A loop other than the Union's returns \<open>Pass\<close>, an error it makes itself with
  \<^verbatim>\<open>fail\<close>, or exactly what one of its recursive calls returned or threw.
\<close>

lemma index_loop_origin:
  "index_loop w ob s path keys = Some v \<Longrightarrow> v = Pass \<or> (\<exists>d p. w d s p = Some v)"
  by (induction keys) (auto simp: and_then_Some)

lemma member_step_origin:
  "member_step h w ob path m = Some v \<Longrightarrow>
     v = Pass \<or> (\<exists>p. v = Reject (Mismatch p (Text ''defined'') (JString ''undefined'')))
     \<or> (\<exists>d p. w d (member_shape m) p = Some v)"
  by (cases m) (auto simp: Let_def split: if_splits dest: index_loop_origin)

lemma member_loop_origin:
  "member_loop h w ob path ms = Some v \<Longrightarrow>
     v = Pass \<or> (\<exists>p. v = Reject (Mismatch p (Text ''defined'') (JString ''undefined'')))
     \<or> (\<exists>m d p. m \<in> set ms \<and> w d (member_shape m) p = Some v)"
  by (induction ms) (auto simp: and_then_Some dest!: member_step_origin)

lemma array_loop_origin:
  "array_loop w xs s path i = Some v \<Longrightarrow> v = Pass \<or> (\<exists>d p. w d s p = Some v)"
  by (induction xs arbitrary: i) (auto simp: and_then_Some)

lemma intersection_loop_origin:
  "intersection_loop w data path ss = Some v \<Longrightarrow> v = Pass \<or> (\<exists>s p. s \<in> set ss \<and> w data s p = Some v)"
  by (induction ss) (auto simp: and_then_Some)

lemma union_loop_origin:
  "union_loop w data path ss errors = Some v \<Longrightarrow>
     v = Pass \<or> (\<exists>es. v = Reject (NoBranch path es))
     \<or> (\<exists>t s. s \<in> set ss \<and> v = Throw t \<and> w data s path = Some (Throw t))"
  by (induction ss arbitrary: errors) (auto split: option.splits verdict.splits)

lemma tuple_lookahead_origin:
  "tuple_lookahead w xs s type path mx = Some (Return v) \<Longrightarrow>
     \<exists>t d p. v = Throw t \<and> w d s p = Some (Throw t)"
proof (induction w xs s type path mx rule: tuple_lookahead.induct)
  case (1 w xs s type path mx)
  from "1.prems" show ?case
    apply (subst (asm) tuple_lookahead.simps)
    using "1.IH" by (auto split: if_splits option.splits verdict.splits)
qed

lemma tuple_required_origin:
  "tuple_required w xs s path mn mx = Some (Return v) \<Longrightarrow> v \<noteq> Pass \<and> (\<exists>d p. w d s p = Some v)"
proof (induction w xs s path mn mx rule: tuple_required.induct)
  case (1 w xs s path mn mx)
  from "1.prems" show ?case
    apply (subst (asm) tuple_required.simps)
    using "1.IH" by (auto split: if_splits option.splits verdict.splits)
qed

lemma tuple_loop_origin:
  "tuple_loop h w data xs path items mn mx = Some v \<Longrightarrow>
     v = Pass \<or> v = fail h path (Text ''a tuple'') data
     \<or> (\<exists>s d p. s \<in> fst ` set items \<and> w d s p = Some v)"
proof (induction items arbitrary: mn mx)
  case Nil
  then show ?case by (auto split: if_splits)
next
  case (Cons it items)
  obtain s type where it: "it = (s, type)" by (cases it)
  show ?case
  proof (cases "type = Required")
    case True
    with Cons.prems it show ?thesis
      by (auto split: option.splits flow.splits dest!: tuple_required_origin Cons.IH)
  next
    case False
    with Cons.prems it show ?thesis
      by (auto split: option.splits flow.splits dest!: tuple_lookahead_origin Cons.IH)
  qed
qed

lemma walk_Throw: "walk n h root data s path = Some (Throw t) \<Longrightarrow> t = TypeError"
proof (induction n arbitrary: data s path)
  case 0
  then show ?case by simp
next
  case (Suc n)
  show ?case
  proof (cases s)
    case (Object ms)
    with Suc.prems show ?thesis
      by (auto split: if_splits jsval.splits dest!: member_loop_origin dest: Suc.IH simp: fail_Throw)
  next
    case (Array e)
    with Suc.prems show ?thesis
      by (auto split: if_splits jsval.splits dest!: array_loop_origin dest: Suc.IH simp: fail_Throw)
  next
    case (Tuple items)
    with Suc.prems show ?thesis
      by (auto split: if_splits jsval.splits dest!: tuple_loop_origin dest: Suc.IH simp: fail_Throw)
  next
    case (Union ss)
    with Suc.prems show ?thesis
      by (auto dest!: union_loop_origin dest: Suc.IH)
  next
    case (Intersection ss)
    with Suc.prems show ?thesis
      by (auto dest!: intersection_loop_origin dest: Suc.IH)
  next
    case (Reference rp)
    with Suc.prems show ?thesis
      by (auto split: option.splits target.splits dest: Suc.IH)
  qed (use Suc.prems in \<open>auto split: if_splits simp: fail_Throw\<close>)
qed


section \<open>The public surface\<close>

text \<open>
  C5. When no Shape is supplied (the argument is \<^verbatim>\<open>undefined\<close> or \<^verbatim>\<open>null\<close>),
  \<^verbatim>\<open>is\<close>, \<^verbatim>\<open>cast\<close> and the functions returned by \<^verbatim>\<open>createIs\<close> and
  \<^verbatim>\<open>createCast\<close> throw the configuration error on every call, whatever the data, the
  store and the recursion budget. The error is neither the result \<^verbatim>\<open>false\<close> nor a
  validation error, \<^verbatim>\<open>is\<close> does not turn it into a boolean, and \<^verbatim>\<open>cast\<close> returns
  no data.
\<close>

theorem missing_shape_throws_configuration_error:
  "is_T n h data ShapeUndefined = Some (Inl ConfigurationError)
   \<and> is_T n h data ShapeNull = Some (Inl ConfigurationError)
   \<and> cast n h data ShapeUndefined = Some (Inl ConfigurationError)
   \<and> cast n h data ShapeNull = Some (Inl ConfigurationError)
   \<and> createIs n h ShapeUndefined data = Some (Inl ConfigurationError)
   \<and> createIs n h ShapeNull data = Some (Inl ConfigurationError)
   \<and> createCast n h ShapeUndefined data = Some (Inl ConfigurationError)
   \<and> createCast n h ShapeNull data = Some (Inl ConfigurationError)
   \<and> (\<forall>b. is_T n h data ShapeUndefined \<noteq> Some (Inr b))
   \<and> (\<forall>b. is_T n h data ShapeNull \<noteq> Some (Inr b))
   \<and> (\<forall>v. cast n h data ShapeUndefined \<noteq> Some (Inr v))
   \<and> (\<forall>v. cast n h data ShapeNull \<noteq> Some (Inr v))
   \<and> (\<forall>e. ConfigurationError \<noteq> ValidationError e)"
  by (simp add: is_T_def cast_def createIs_def createCast_def)

text \<open>
  For every data value and every Shape that is supplied, \<^verbatim>\<open>cast\<close> returns exactly
  when \<^verbatim>\<open>is\<close> returns \<^verbatim>\<open>true\<close>, and what it returns is the data it was given (the same
  primitive or the same reference; the model has no operation that writes to the store).
  \<^verbatim>\<open>cast\<close> throws a validation error exactly when the matcher returned that error, and
  then \<^verbatim>\<open>is\<close> returns \<^verbatim>\<open>false\<close>; \<^verbatim>\<open>is\<close> never throws a validation error. The two
  functions also fail to return together.
\<close>

lemma cast_and_is_agree:
  "((\<exists>v. cast n h data (ShapeValue root) = Some (Inr v))
      \<longleftrightarrow> is_T n h data (ShapeValue root) = Some (Inr True))
   \<and> (\<forall>v. cast n h data (ShapeValue root) = Some (Inr v) \<longrightarrow> v = data)
   \<and> (\<forall>e. cast n h data (ShapeValue root) = Some (Inl (ValidationError e))
          \<longleftrightarrow> validate n h data (ShapeValue root) = Some (Reject e))
   \<and> (\<forall>e. validate n h data (ShapeValue root) = Some (Reject e)
          \<longrightarrow> is_T n h data (ShapeValue root) = Some (Inr False))
   \<and> (\<forall>e. is_T n h data (ShapeValue root) \<noteq> Some (Inl (ValidationError e)))
   \<and> (cast n h data (ShapeValue root) = None \<longleftrightarrow> is_T n h data (ShapeValue root) = None)"
proof -
  have throw: "walk n h root data root ''root'' \<noteq> Some (Throw (ValidationError e))" for e
    using walk_Throw [of n h root data root "''root''" "ValidationError e"] by auto
  show ?thesis
    using throw
    by (auto simp: is_T_def cast_def split: option.splits verdict.splits)
qed

text \<open>
  C4. The claim has \<^verbatim>\<open>is\<close> return \<^verbatim>\<open>false\<close>, and never throw, on every mismatch, and
  \<^verbatim>\<open>cast\<close> throw the matcher's validation error. The code does not, where the
  mismatching data does not convert to a string: \<^verbatim>\<open>fail\<close> builds the message of the
  error with \<^verbatim>\<open>`${data}`\<close> before \<^verbatim>\<open>is\<close> can discard it. On the parsed JSON
  \<^verbatim>\<open>{"toString": 1}\<close>, which is not a string, \<^verbatim>\<open>is\<close> and \<^verbatim>\<open>cast\<close> with the shape
  String both throw a TypeError, at every budget that lets \<^verbatim>\<open>walk\<close> run; the same data
  is accepted by the shape Unknown, and a mismatch on data that converts gives
  \<^verbatim>\<open>false\<close>.
\<close>

theorem is_throws_on_unconvertible_mismatch:
  "is_T (Suc n) (store [js_object [(''toString'', JNumber 1)]]) (Ref 0) (ShapeValue String)
     = Some (Inl TypeError)
   \<and> cast (Suc n) (store [js_object [(''toString'', JNumber 1)]]) (Ref 0) (ShapeValue String)
     = Some (Inl TypeError)
   \<and> is_T (Suc n) (store [js_object [(''toString'', JNumber 1)]]) (Ref 0) (ShapeValue Unknown)
     = Some (Inr True)
   \<and> is_T (Suc n) (store [js_object [(''name'', JNumber 1)]]) (Ref 0) (ShapeValue String)
     = Some (Inr False)"
  by (simp add: is_T_def cast_def store_def js_object_def fail_def)


section \<open>Unions\<close>

lemma union_loop_Pass_iff:
  "union_loop w data path options errors = Some Pass \<longleftrightarrow>
     (\<exists>k<length options. w data (options ! k) path = Some Pass
        \<and> (\<forall>j<k. \<exists>e. w data (options ! j) path = Some (Reject e)))"
proof (induction options arbitrary: errors)
  case Nil
  then show ?case by simp
next
  case (Cons option options)
  show ?case
  proof (cases "w data option path")
    case None
    have "\<not> (\<exists>k<length (option # options). w data ((option # options) ! k) path = Some Pass
              \<and> (\<forall>j<k. \<exists>e. w data ((option # options) ! j) path = Some (Reject e)))"
    proof
      assume "\<exists>k<length (option # options). w data ((option # options) ! k) path = Some Pass
              \<and> (\<forall>j<k. \<exists>e. w data ((option # options) ! j) path = Some (Reject e))"
      then obtain k where k: "w data ((option # options) ! k) path = Some Pass"
          "\<forall>j<k. \<exists>e. w data ((option # options) ! j) path = Some (Reject e)" by blast
      show False
      proof (cases k)
        case 0
        with k(1) None show False by simp
      next
        case (Suc k')
        with k(2) [rule_format, of 0] None show False by simp
      qed
    qed
    with None show ?thesis by simp
  next
    case (Some v)
    show ?thesis
    proof (cases v)
      case Pass
      with Some show ?thesis by auto
    next
      case (Reject e)
      have "(\<exists>k<length (option # options). w data ((option # options) ! k) path = Some Pass
              \<and> (\<forall>j<k. \<exists>e. w data ((option # options) ! j) path = Some (Reject e)))
            \<longleftrightarrow> (\<exists>k<length options. w data (options ! k) path = Some Pass
              \<and> (\<forall>j<k. \<exists>e. w data (options ! j) path = Some (Reject e)))" (is "?L \<longleftrightarrow> ?R")
      proof
        assume ?L
        then obtain k where k: "k < length (option # options)"
          "w data ((option # options) ! k) path = Some Pass"
          "\<forall>j<k. \<exists>e. w data ((option # options) ! j) path = Some (Reject e)" by blast
        with Some Reject obtain k' where k': "k = Suc k'" by (cases k) auto
        have "\<forall>j<k'. \<exists>e. w data (options ! j) path = Some (Reject e)"
        proof (intro allI impI)
          fix j assume "j < k'"
          then have "Suc j < k" using k' by simp
          with k(3) show "\<exists>e. w data (options ! j) path = Some (Reject e)" by fastforce
        qed
        with k k' show ?R by auto
      next
        assume ?R
        then obtain k where k: "k < length options" "w data (options ! k) path = Some Pass"
          "\<forall>j<k. \<exists>e. w data (options ! j) path = Some (Reject e)" by blast
        have "\<forall>j<Suc k. \<exists>e. w data ((option # options) ! j) path = Some (Reject e)"
          using k(3) Some Reject by (auto simp: nth_Cons split: nat.splits)
        with k show ?L by (intro exI [of _ "Suc k"]) simp
      qed
      with Some Reject Cons.IH show ?thesis by simp
    next
      case (Throw t)
      have "\<not> (\<exists>k<length (option # options). w data ((option # options) ! k) path = Some Pass
              \<and> (\<forall>j<k. \<exists>e. w data ((option # options) ! j) path = Some (Reject e)))"
      proof
        assume "\<exists>k<length (option # options). w data ((option # options) ! k) path = Some Pass
              \<and> (\<forall>j<k. \<exists>e. w data ((option # options) ! j) path = Some (Reject e))"
        then obtain k where k: "w data ((option # options) ! k) path = Some Pass"
            "\<forall>j<k. \<exists>e. w data ((option # options) ! j) path = Some (Reject e)" by blast
        show False
        proof (cases k)
          case 0
          with k(1) Some Throw show False by simp
        next
          case (Suc k')
          with k(2) [rule_format, of 0] Some Throw show False by simp
        qed
      qed
      with Some Throw show ?thesis by simp
    qed
  qed
qed














lemma intersection_loop_Pass_iff:
  "intersection_loop w data path ss = Some Pass \<longleftrightarrow> (\<forall>s\<in>set ss. w data s path = Some Pass)"
  by (induction ss) (auto simp: and_then_Some)

lemma walk_undefined_Pass:
  "walk n h root JUndefined s path = Some Pass \<Longrightarrow> admits_absent s"
proof (induction n arbitrary: s path)
  case 0
  then show ?case by simp
next
  case (Suc n)
  show ?case
  proof (cases s)
    case (Union ss)
    with Suc.prems obtain k where "k < length ss" "walk n h root JUndefined (ss ! k) path = Some Pass"
      by (auto simp: union_loop_Pass_iff)
    then have "ss ! k \<in> set ss" "admits_absent (ss ! k)" by (auto intro: Suc.IH)
    with Union show ?thesis by (auto simp: list_ex_iff)
  next
    case (Intersection ss)
    with Suc.prems have "\<forall>s\<in>set ss. walk n h root JUndefined s path = Some Pass"
      by (simp add: intersection_loop_Pass_iff)
    then have "\<forall>s\<in>set ss. admits_absent s" by (auto intro: Suc.IH)
    with Intersection show ?thesis by (simp add: list_all_iff)
  qed (use Suc.prems in \<open>auto split: if_splits\<close>)
qed


section \<open>The tuple matcher\<close>

lemma tuple_required_first_success:
  assumes "mn \<le> k" and "k \<le> mx \<or> k = mn"
    and "\<forall>i. mn \<le> i \<and> i < k \<longrightarrow> (\<exists>e. w (arr_get xs i) s (path @ ''.'' @ string_of_nat i) = Some (Reject e))"
    and "w (arr_get xs k) s (path @ ''.'' @ string_of_nat k) = Some Pass"
  shows "tuple_required w xs s path mn mx = Some (Continue (Suc k, max (Suc k) mx))"
  using assms
proof (induction "k - mn" arbitrary: mn)
  case 0
  then have "k = mn" by simp
  with 0 show ?case
    by (subst tuple_required.simps) (auto simp: max_def)
next
  case (Suc d)
  then have lt: "mn < k" and kmx: "k \<le> mx" by auto
  with Suc.prems obtain e where e: "w (arr_get xs mn) s (path @ ''.'' @ string_of_nat mn) = Some (Reject e)"
    by blast
  have "tuple_required w xs s path (Suc mn) mx = Some (Continue (Suc k, max (Suc k) mx))"
  proof (rule Suc.hyps(1))
    show "d = k - Suc mn" using Suc.hyps(2) by simp
    show "Suc mn \<le> k" using lt by simp
    show "k \<le> mx \<or> k = Suc mn" using kmx by simp
    show "\<forall>i. Suc mn \<le> i \<and> i < k \<longrightarrow> (\<exists>e. w (arr_get xs i) s (path @ ''.'' @ string_of_nat i) = Some (Reject e))"
      using Suc.prems(3) by simp
    show "w (arr_get xs k) s (path @ ''.'' @ string_of_nat k) = Some Pass" by fact
  qed
  with e lt kmx show ?case
    by (subst tuple_required.simps) simp
qed

lemma tuple_required_all_fail:
  assumes "\<forall>i. mn \<le> i \<and> i < max mn mx \<longrightarrow> (\<exists>e. w (arr_get xs i) s (path @ ''.'' @ string_of_nat i) = Some (Reject e))"
    and "w (arr_get xs (max mn mx)) s (path @ ''.'' @ string_of_nat (max mn mx)) = Some (Reject e)"
  shows "tuple_required w xs s path mn mx = Some (Return (Reject e))"
  using assms
proof (induction "mx - mn" arbitrary: mn)
  case 0
  then have "max mn mx = mn" by simp
  with 0 show ?case
    by (subst tuple_required.simps) auto
next
  case (Suc d)
  then have lt: "mn < mx" by simp
  then have m: "max mn mx = mx" "max (Suc mn) mx = mx" by simp_all
  from Suc.prems(1) lt m obtain e' where e': "w (arr_get xs mn) s (path @ ''.'' @ string_of_nat mn) = Some (Reject e')"
    by auto
  have "tuple_required w xs s path (Suc mn) mx = Some (Return (Reject e))"
  proof (rule Suc.hyps(1))
    show "d = mx - Suc mn" using Suc.hyps(2) by simp
    show "\<forall>i. Suc mn \<le> i \<and> i < max (Suc mn) mx \<longrightarrow> (\<exists>e. w (arr_get xs i) s (path @ ''.'' @ string_of_nat i) = Some (Reject e))"
      using Suc.prems(1) m by simp
    show "w (arr_get xs (max (Suc mn) mx)) s (path @ ''.'' @ string_of_nat (max (Suc mn) mx)) = Some (Reject e)"
      using Suc.prems(2) m by simp
  qed
  with e' lt show ?case
    by (subst tuple_required.simps) simp
qed

lemma tuple_lookahead_variable_run:
  assumes "mx \<le> k" and "k \<le> length xs"
    and "\<forall>i. mx \<le> i \<and> i < k \<longrightarrow> w (arr_get xs i) s (path @ ''.'' @ string_of_nat i) = Some Pass"
    and "k = length xs \<or> (\<exists>e. w (arr_get xs k) s (path @ ''.'' @ string_of_nat k) = Some (Reject e))"
  shows "tuple_lookahead w xs s Variable path mx = Some (Continue k)"
  using assms
proof (induction "k - mx" arbitrary: mx)
  case 0
  then have "k = mx" by simp
  with 0 show ?case
    by (subst tuple_lookahead.simps) auto
next
  case (Suc d)
  then have lt: "mx < k" by simp
  with Suc.prems have p: "w (arr_get xs mx) s (path @ ''.'' @ string_of_nat mx) = Some Pass"
    by simp
  have "tuple_lookahead w xs s Variable path (Suc mx) = Some (Continue k)"
  proof (rule Suc.hyps(1))
    show "d = k - Suc mx" using Suc.hyps(2) by simp
    show "Suc mx \<le> k" using lt by simp
    show "k \<le> length xs" by fact
    show "\<forall>i. Suc mx \<le> i \<and> i < k \<longrightarrow> w (arr_get xs i) s (path @ ''.'' @ string_of_nat i) = Some Pass"
      using Suc.prems(3) by simp
    show "k = length xs \<or> (\<exists>e. w (arr_get xs k) s (path @ ''.'' @ string_of_nat k) = Some (Reject e))" by fact
  qed
  with p lt Suc.prems(2) show ?case
    by (subst tuple_lookahead.simps) simp
qed

lemma tuple_lookahead_optional:
  "tuple_lookahead w xs s Optional path mx =
     (if mx < length xs then
        (case w (arr_get xs mx) s (path @ ''.'' @ string_of_nat mx) of
           None \<Rightarrow> None
         | Some Pass \<Rightarrow> Some (Continue (Suc mx))
         | Some (Reject e) \<Rightarrow> Some (Continue mx)
         | Some (Throw t) \<Rightarrow> Some (Return (Throw t)))
      else Some (Continue mx))"
  by (subst tuple_lookahead.simps) (simp split: option.splits verdict.splits)


lemma tuple_loop_all_unknown:
  "tuple_loop h (\<lambda>d s p. walk (Suc n) h root d s p) data xs path (replicate k (Unknown, Required)) j j
     = Some (if j + k < length xs then fail h path (Text ''a tuple'') data else Pass)"
proof (induction k arbitrary: j)
  case 0
  then show ?case by simp
next
  case (Suc k)
  have "tuple_required (\<lambda>d s p. walk (Suc n) h root d s p) xs Unknown path j j = Some (Continue (Suc j, Suc j))"
    by (subst tuple_required.simps) simp
  then show ?case using Suc.IH [of "Suc j"] by simp
qed

text \<open>
  C1. The Required loop, started with the committed cursor \<open>mn\<close> and the frontier
  \<open>mx\<close>: when the tests at \<open>mn, ..., k - 1\<close> fail and the test at \<open>k\<close> succeeds,
  with \<open>k\<close> not beyond the frontier, the item takes element \<open>k\<close> (the cursor was
  advanced and the item retried after each failure) and the cursors become \<open>k + 1\<close> and
  the larger of \<open>k + 1\<close> and \<open>mx\<close>. When every test from \<open>mn\<close> up to the frontier
  fails, the tuple fails with the error of the last element tested, the one at the
  frontier: only then has the committed cursor exceeded the frontier. For the tuple
  [String (Optional), Number (Required)], \<^verbatim>\<open>[5]\<close> and \<^verbatim>\<open>["a", 5]\<close> are accepted and
  \<^verbatim>\<open>["a", "b"]\<close> is rejected, with the error of element 1. For
  [Number (Optional), Number (Required)], \<^verbatim>\<open>[5]\<close> is accepted: the Required item takes
  back the element the Optional item had claimed.
\<close>

theorem required_item_retries_within_frontier:
  "(\<forall>k. mn \<le> k \<and> (k \<le> mx \<or> k = mn)
        \<and> (\<forall>i. mn \<le> i \<and> i < k \<longrightarrow> (\<exists>e. item_test w xs s path i = Some (Reject e)))
        \<and> item_test w xs s path k = Some Pass
      \<longrightarrow> tuple_required w xs s path mn mx = Some (Continue (Suc k, max (Suc k) mx)))
   \<and> (\<forall>e. (\<forall>i. mn \<le> i \<and> i < max mn mx \<longrightarrow> (\<exists>e'. item_test w xs s path i = Some (Reject e')))
        \<and> item_test w xs s path (max mn mx) = Some (Reject e)
      \<longrightarrow> tuple_required w xs s path mn mx = Some (Return (Reject e)))
   \<and> is_T (Suc (Suc n)) (store [js_array [PNumber 5]]) (Ref 0)
        (ShapeValue (Tuple [(String, Optional), (Number, Required)])) = Some (Inr True)
   \<and> is_T (Suc (Suc n)) (store [js_array [PString ''a'', PNumber 5]]) (Ref 0)
        (ShapeValue (Tuple [(String, Optional), (Number, Required)])) = Some (Inr True)
   \<and> is_T (Suc (Suc n)) (store [js_array [PString ''a'', PString ''b'']]) (Ref 0)
        (ShapeValue (Tuple [(String, Optional), (Number, Required)])) = Some (Inr False)
   \<and> is_T (Suc (Suc n)) (store [js_array [PNumber 5]]) (Ref 0)
        (ShapeValue (Tuple [(Number, Optional), (Number, Required)])) = Some (Inr True)
   \<and> validate (Suc (Suc n)) (store [js_array [PString ''a'', PString ''b'']]) (Ref 0)
        (ShapeValue (Tuple [(String, Optional), (Number, Required)]))
      = Some (Reject (Mismatch ''root.1'' (Text ''a number'') (JString ''b'')))"
proof (intro conjI allI impI)
  fix k
  assume "mn \<le> k \<and> (k \<le> mx \<or> k = mn)
        \<and> (\<forall>i. mn \<le> i \<and> i < k \<longrightarrow> (\<exists>e. item_test w xs s path i = Some (Reject e)))
        \<and> item_test w xs s path k = Some Pass"
  then show "tuple_required w xs s path mn mx = Some (Continue (Suc k, max (Suc k) mx))"
    by (intro tuple_required_first_success) auto
next
  fix e
  assume "(\<forall>i. mn \<le> i \<and> i < max mn mx \<longrightarrow> (\<exists>e'. item_test w xs s path i = Some (Reject e')))
        \<and> item_test w xs s path (max mn mx) = Some (Reject e)"
  then show "tuple_required w xs s path mn mx = Some (Return (Reject e))"
    by (intro tuple_required_all_fail) auto
qed (simp_all add: eval_simps)

theorem required_item_retries_within_frontier_witness:
  "tuple_required (\<lambda>d s p. walk (Suc 0) (store []) Unknown d s p) [JString ''a'', JNumber 5] Number ''root'' 0 1
     = Some (Continue (2, 2))
   \<and> tuple_required (\<lambda>d s p. walk (Suc 0) (store []) Unknown d s p) [JString ''a'', JString ''b''] Number ''root'' 0 1
     = Some (Return (Reject (Mismatch ''root.1'' (Text ''a number'') (JString ''b''))))"
proof -
  let ?w = "\<lambda>d s p. walk (Suc 0) (store []) Unknown d s p"
  have a: "(0::nat) \<le> 1 \<and> ((1::nat) \<le> 1 \<or> (1::nat) = 0)
        \<and> (\<forall>i. 0 \<le> i \<and> i < 1 \<longrightarrow> (\<exists>e. item_test ?w [JString ''a'', JNumber 5] Number ''root'' i = Some (Reject e)))
        \<and> item_test ?w [JString ''a'', JNumber 5] Number ''root'' 1 = Some Pass"
    by (simp add: arr_get_def)
  have b: "(\<forall>i. 0 \<le> i \<and> i < max 0 1 \<longrightarrow> (\<exists>e'. item_test ?w [JString ''a'', JString ''b''] Number ''root'' i = Some (Reject e')))
        \<and> item_test ?w [JString ''a'', JString ''b''] Number ''root'' (max 0 1)
            = Some (Reject (Mismatch ''root.1'' (Text ''a number'') (JString ''b'')))"
    by (simp add: arr_get_def fail_def string_of_nat.simps digit_char_def)
  from a required_item_retries_within_frontier [of 0 1 ?w "[JString ''a'', JNumber 5]" Number "''root''", THEN conjunct1]
  have 1: "tuple_required ?w [JString ''a'', JNumber 5] Number ''root'' 0 1 = Some (Continue (Suc 1, max (Suc 1) 1))"
    by blast
  from b required_item_retries_within_frontier [of 0 1 ?w "[JString ''a'', JString ''b'']" Number "''root''", THEN conjunct2, THEN conjunct1]
  have 2: "tuple_required ?w [JString ''a'', JString ''b''] Number ''root'' 0 1
     = Some (Return (Reject (Mismatch ''root.1'' (Text ''a number'') (JString ''b''))))"
    by blast
  from 1 2 show ?thesis by simp
qed

text \<open>
  C2. A Variable item, started at the frontier \<open>mx\<close>, claims the run of elements
  \<open>mx, ..., k - 1\<close> whose tests succeed, where \<open>k\<close> is the data length or the first
  index whose test fails; the run may be empty. An Optional item makes the test once,
  when the frontier is below the data length, and never repeats it; it moves the frontier
  by at most one. For the tuple [Number (Required), Boolean (Variable)], \<^verbatim>\<open>[1]\<close> and
  \<^verbatim>\<open>[1, true, false]\<close> are accepted and \<^verbatim>\<open>[1, true, 2]\<close> is rejected as a tuple:
  the run stops at the element 2, which stays unmatched.
\<close>

theorem lookahead_claims_greedy_run:
  "(\<forall>k. mx \<le> k \<and> k \<le> length xs
        \<and> (\<forall>i. mx \<le> i \<and> i < k \<longrightarrow> item_test w xs s path i = Some Pass)
        \<and> (k = length xs \<or> (\<exists>e. item_test w xs s path k = Some (Reject e)))
      \<longrightarrow> tuple_lookahead w xs s Variable path mx = Some (Continue k))
   \<and> tuple_lookahead w xs s Optional path mx =
       (if mx < length xs then
          (case item_test w xs s path mx of
             None \<Rightarrow> None
           | Some Pass \<Rightarrow> Some (Continue (Suc mx))
           | Some (Reject e) \<Rightarrow> Some (Continue mx)
           | Some (Throw t) \<Rightarrow> Some (Return (Throw t)))
        else Some (Continue mx))
   \<and> (\<forall>k. tuple_lookahead w xs s Optional path mx = Some (Continue k) \<longrightarrow> k = mx \<or> k = Suc mx)
   \<and> is_T (Suc (Suc n)) (store [js_array [PNumber 1]]) (Ref 0)
        (ShapeValue (Tuple [(Number, Required), (Boolean, Variable)])) = Some (Inr True)
   \<and> is_T (Suc (Suc n)) (store [js_array [PNumber 1, PBoolean True, PBoolean False]]) (Ref 0)
        (ShapeValue (Tuple [(Number, Required), (Boolean, Variable)])) = Some (Inr True)
   \<and> is_T (Suc (Suc n)) (store [js_array [PNumber 1, PBoolean True, PNumber 2]]) (Ref 0)
        (ShapeValue (Tuple [(Number, Required), (Boolean, Variable)])) = Some (Inr False)
   \<and> validate (Suc (Suc n)) (store [js_array [PNumber 1, PBoolean True, PNumber 2]]) (Ref 0)
        (ShapeValue (Tuple [(Number, Required), (Boolean, Variable)]))
      = Some (Reject (Mismatch ''root'' (Text ''a tuple'') (Ref 0)))"
proof (intro conjI allI impI)
  fix k
  assume "mx \<le> k \<and> k \<le> length xs
        \<and> (\<forall>i. mx \<le> i \<and> i < k \<longrightarrow> item_test w xs s path i = Some Pass)
        \<and> (k = length xs \<or> (\<exists>e. item_test w xs s path k = Some (Reject e)))"
  then show "tuple_lookahead w xs s Variable path mx = Some (Continue k)"
    by (intro tuple_lookahead_variable_run) auto
next
  show "tuple_lookahead w xs s Optional path mx =
       (if mx < length xs then
          (case item_test w xs s path mx of
             None \<Rightarrow> None
           | Some Pass \<Rightarrow> Some (Continue (Suc mx))
           | Some (Reject e) \<Rightarrow> Some (Continue mx)
           | Some (Throw t) \<Rightarrow> Some (Return (Throw t)))
        else Some (Continue mx))"
    by (rule tuple_lookahead_optional)
next
  fix k
  assume "tuple_lookahead w xs s Optional path mx = Some (Continue k)"
  then show "k = mx \<or> k = Suc mx"
    by (auto simp: tuple_lookahead_optional split: if_splits option.splits verdict.splits)
qed (simp_all add: eval_simps)

theorem lookahead_claims_greedy_run_witness:
  "tuple_lookahead (\<lambda>d s p. walk (Suc 0) (store []) Unknown d s p)
     [JNumber 1, JBoolean True, JNumber 2] Boolean Variable ''root'' 1 = Some (Continue 2)
   \<and> tuple_lookahead (\<lambda>d s p. walk (Suc 0) (store []) Unknown d s p)
     [JNumber 1, JBoolean True, JBoolean False] Boolean Optional ''root'' 1 = Some (Continue 2)"
proof -
  let ?w = "\<lambda>d s p. walk (Suc 0) (store []) Unknown d s p"
  let ?xs = "[JNumber 1, JBoolean True, JNumber 2]"
  let ?ys = "[JNumber 1, JBoolean True, JBoolean False]"
  have a: "(1::nat) \<le> 2 \<and> 2 \<le> length ?xs
        \<and> (\<forall>i. 1 \<le> i \<and> i < 2 \<longrightarrow> item_test ?w ?xs Boolean ''root'' i = Some Pass)
        \<and> (2 = length ?xs \<or> (\<exists>e. item_test ?w ?xs Boolean ''root'' 2 = Some (Reject e)))"
  proof -
    have "i = 1" if "1 \<le> i \<and> i < 2" for i :: nat using that by simp
    then show ?thesis by (auto simp: arr_get_def)
  qed
  from a lookahead_claims_greedy_run [of 1 ?xs ?w Boolean "''root''", THEN conjunct1]
  have 1: "tuple_lookahead ?w ?xs Boolean Variable ''root'' 1 = Some (Continue 2)"
    by blast
  have 2: "tuple_lookahead ?w ?ys Boolean Optional ''root'' 1 = Some (Continue 2)"
    using lookahead_claims_greedy_run [of 1 ?ys ?w Boolean "''root''", THEN conjunct2, THEN conjunct1]
    by (simp add: arr_get_def)
  from 1 2 show ?thesis by simp
qed


lemma walk_undefined_rejected:
  assumes "s \<in> {String, Number, Boolean, Bigint, Date} \<or> (\<exists>ms. s = Object ms) \<or> (\<exists>e. s = Array e)
           \<or> (\<exists>items. s = Tuple items) \<or> (\<exists>v. s = Literal v \<and> v \<noteq> PUndefined)"
  shows "\<exists>e. walk (Suc n) h root JUndefined s path = Some (Reject e)"
  using assms by auto

lemma walk_all_unknown_tuple:
  assumes "kind (h a) = ArrayObject"
  shows "walk (Suc (Suc n)) h root (Ref a) (Tuple (replicate k (Unknown, Required))) path
           = Some (if k < length (elems (h a)) then fail h path (Text ''a tuple'') (Ref a) else Pass)"
  using assms
    tuple_loop_all_unknown [where n = n and h = h and root = root and data = "Ref a"
      and xs = "elems (h a)" and path = path and k = k and j = 0]
  by simp

text \<open>
  C3. After the items, the tuple fails when the frontier is below the data length and
  succeeds otherwise; nothing compares the data length with the number of items. (The
  failure is what \<^verbatim>\<open>fail\<close> gives: the error "a tuple", or a TypeError when the array
  does not convert to a string.) A read
  past the end of the data gives \<^verbatim>\<open>undefined\<close>, which the leaf kinds other than
  Unknown, Object, Array, Tuple and a Literal other than \<^verbatim>\<open>undefined\<close> reject and
  which Unknown and the Literal \<^verbatim>\<open>undefined\<close> accept; a shape that accepts it admits
  absence by its form. So a tuple of \<open>k\<close> Required
  Unknown items accepts every array of at most \<open>k\<close> elements, the empty one too. For
  the tuple [Number, String], all Required, \<^verbatim>\<open>[1, "a"]\<close> is accepted,
  \<^verbatim>\<open>[1, "a", 2]\<close> is rejected as a tuple, and \<^verbatim>\<open>[1]\<close> is rejected by the String
  test on the absent element 1.
\<close>

theorem trailing_elements_and_short_data:
  "tuple_loop h w data xs path [] mn mx
     = (if mx < length xs then Some (fail h path (Text ''a tuple'') data) else Some Pass)
   \<and> (length xs \<le> i \<longrightarrow> arr_get xs i = JUndefined)
   \<and> (s \<in> {String, Number, Boolean, Bigint, Date} \<or> (\<exists>ms. s = Object ms) \<or> (\<exists>e. s = Array e)
        \<or> (\<exists>items. s = Tuple items) \<or> (\<exists>v. s = Literal v \<and> v \<noteq> PUndefined)
      \<longrightarrow> (\<exists>e. walk (Suc n) h root JUndefined s path = Some (Reject e)))
   \<and> walk (Suc n) h root JUndefined Unknown path = Some Pass
   \<and> walk (Suc n) h root JUndefined (Literal PUndefined) path = Some Pass
   \<and> (walk m h root JUndefined s path = Some Pass \<longrightarrow> admits_absent s)
   \<and> (kind (h a) = ArrayObject
      \<longrightarrow> walk (Suc (Suc n)) h root (Ref a) (Tuple (replicate k (Unknown, Required))) path
            = Some (if k < length (elems (h a)) then fail h path (Text ''a tuple'') (Ref a) else Pass))
   \<and> is_T (Suc (Suc n)) (store [js_array [PNumber 1, PString ''a'']]) (Ref 0)
        (ShapeValue (Tuple [(Number, Required), (String, Required)])) = Some (Inr True)
   \<and> validate (Suc (Suc n)) (store [js_array [PNumber 1, PString ''a'', PNumber 2]]) (Ref 0)
        (ShapeValue (Tuple [(Number, Required), (String, Required)]))
      = Some (Reject (Mismatch ''root'' (Text ''a tuple'') (Ref 0)))
   \<and> validate (Suc (Suc n)) (store [js_array [PNumber 1]]) (Ref 0)
        (ShapeValue (Tuple [(Number, Required), (String, Required)]))
      = Some (Reject (Mismatch ''root.1'' (Text ''a string'') JUndefined))
   \<and> is_T (Suc (Suc n)) (store [js_array []]) (Ref 0)
        (ShapeValue (Tuple [(Unknown, Required), (Unknown, Required)])) = Some (Inr True)"
proof (intro conjI impI)
  assume "s \<in> {String, Number, Boolean, Bigint, Date} \<or> (\<exists>ms. s = Object ms) \<or> (\<exists>e. s = Array e)
        \<or> (\<exists>items. s = Tuple items) \<or> (\<exists>v. s = Literal v \<and> v \<noteq> PUndefined)"
  then show "\<exists>e. walk (Suc n) h root JUndefined s path = Some (Reject e)"
    by (rule walk_undefined_rejected)
next
  assume "walk m h root JUndefined s path = Some Pass"
  then show "admits_absent s" by (rule walk_undefined_Pass)
next
  assume "kind (h a) = ArrayObject"
  then show "walk (Suc (Suc n)) h root (Ref a) (Tuple (replicate k (Unknown, Required))) path
            = Some (if k < length (elems (h a)) then fail h path (Text ''a tuple'') (Ref a) else Pass)"
    by (rule walk_all_unknown_tuple)
qed (simp_all add: eval_simps)

theorem trailing_elements_and_short_data_witness:
  "arr_get [JNumber 1] 1 = JUndefined
   \<and> (\<exists>e. walk (Suc 0) (store [js_array []]) Unknown JUndefined String ''root.1'' = Some (Reject e))
   \<and> admits_absent (Union [String, Literal PUndefined])
   \<and> walk (Suc (Suc 0)) (store [js_array []]) Unknown (Ref 0)
        (Tuple (replicate 3 (Unknown, Required))) ''root.1'' = Some Pass"
proof -
  note t = trailing_elements_and_short_data
    [where xs = "[JNumber 1]" and i = 1 and s = String and n = 0 and h = "store [js_array []]"
       and root = Unknown and path = "''root.1''" and a = 0 and k = 3]
  have 1: "length [JNumber 1] \<le> (1::nat)" by simp
  have 2: "String \<in> {String, Number, Boolean, Bigint, Date}" by simp
  have 3: "kind (store [js_array []] 0) = ArrayObject" by (simp add: store_def js_array_def)
  have 4: "\<not> 3 < length (elems (store [js_array []] 0))" by (simp add: store_def js_array_def)
  from t 1 have a: "arr_get [JNumber 1] 1 = JUndefined" by blast
  from t 2 have b: "\<exists>e. walk (Suc 0) (store [js_array []]) Unknown JUndefined String ''root.1'' = Some (Reject e)"
    by blast
  from t 3 have "walk (Suc (Suc 0)) (store [js_array []]) Unknown (Ref 0)
        (Tuple (replicate 3 (Unknown, Required))) ''root.1''
      = Some (if 3 < length (elems (store [js_array []] 0)) then fail (store [js_array []]) ''root.1'' (Text ''a tuple'') (Ref 0) else Pass)"
    by blast
  with 4 have c: "walk (Suc (Suc 0)) (store [js_array []]) Unknown (Ref 0)
        (Tuple (replicate 3 (Unknown, Required))) ''root.1'' = Some Pass"
    by simp
  have 5: "walk (Suc (Suc 0)) (store [js_array []]) Unknown JUndefined
             (Union [String, Literal PUndefined]) ''root.1'' = Some Pass"
    by (simp add: fail_def)
  from 5 trailing_elements_and_short_data
    [where m = "Suc (Suc 0)" and h = "store [js_array []]" and root = Unknown
       and s = "Union [String, Literal PUndefined]" and path = "''root.1''"]
  have d: "admits_absent (Union [String, Literal PUndefined])" by blast
  from a b c d show ?thesis by blast
qed


section \<open>Objects\<close>

lemma digit_val_digit_char: "d < 10 \<Longrightarrow> digit_val (digit_char d) = d"
proof -
  assume "d < 10"
  then have "d \<in> {0, 1, 2, 3, 4, 5, 6, 7, 8, 9}" by auto
  then show ?thesis by (auto simp: digit_val_def digit_char_def)
qed

lemma nat_of_string_of_nat: "nat_of_string (string_of_nat n) = n"
proof (induction n rule: string_of_nat.induct)
  case (1 n)
  show ?case
  proof (cases "n < 10")
    case True
    then show ?thesis
      by (subst string_of_nat.simps) (simp add: nat_of_string_def digit_val_digit_char)
  next
    case False
    with 1 have "nat_of_string (string_of_nat (n div 10)) = n div 10" by simp
    with False show ?thesis
      by (subst string_of_nat.simps) (simp add: nat_of_string_def digit_val_digit_char)
  qed
qed

lemma string_of_nat_inj: "string_of_nat i = string_of_nat j \<longleftrightarrow> i = j"
  by (metis nat_of_string_of_nat)

lemma find_index_key:
  "i < n \<Longrightarrow> find (\<lambda>j. string_of_nat j = string_of_nat i) [0..<n] = Some i"
  unfolding string_of_nat_inj find_Some_iff
  by (intro exI [of _ i]) simp

lemma get_property_index:
  "i < length (elems ob) \<Longrightarrow> get_property ob (string_of_nat i) = elems ob ! i"
  by (simp add: get_property_def find_index_key)

lemma index_loop_array:
  "i \<le> length (elems ob) \<Longrightarrow>
     index_loop w ob s path (map string_of_nat [i..<length (elems ob)])
       = array_loop w (drop i (elems ob)) s path i"
proof (induction "length (elems ob) - i" arbitrary: i)
  case 0
  then show ?case by simp
next
  case (Suc d)
  then have lt: "i < length (elems ob)" by simp
  then have u: "[i..<length (elems ob)] = i # [Suc i..<length (elems ob)]"
    by (simp add: upt_conv_Cons)
  have dr: "drop i (elems ob) = elems ob ! i # drop (Suc i) (elems ob)"
    using lt by (simp add: Cons_nth_drop_Suc)
  have "index_loop w ob s path (map string_of_nat [Suc i..<length (elems ob)])
       = array_loop w (drop (Suc i) (elems ob)) s path (Suc i)"
    using Suc.hyps(2) lt by (intro Suc.hyps(1)) simp_all
  then show ?case
    by (simp add: u dr get_property_index [OF lt])
qed

lemma and_then_Pass_right [simp]: "and_then r (Some Pass) = r"
  by (simp add: and_then_def split: option.splits verdict.splits)

lemma index_loop_Pass_iff:
  "index_loop w ob s path keys = Some Pass \<longleftrightarrow>
     (\<forall>key\<in>set keys. w (get_property ob key) s (path @ ''.'' @ key) = Some Pass)"
  by (induction keys) (auto simp: and_then_Some)

lemma member_loop_Pass_iff:
  "member_loop h w ob path ms = Some Pass \<longleftrightarrow> (\<forall>m\<in>set ms. member_step h w ob path m = Some Pass)"
  by (induction ms) (auto simp: and_then_Some)

lemma member_loop_first_failure:
  "\<forall>m'\<in>set ms1. member_step h w ob path m' = Some Pass \<Longrightarrow> member_step h w ob path m = r \<Longrightarrow> r \<noteq> Some Pass \<Longrightarrow>
     member_loop h w ob path (ms1 @ m # ms2) = r"
  by (induction ms1) (auto simp: and_then_def split: option.splits verdict.splits)

lemma for_in_keys_present: "key \<in> set (for_in_keys ob) \<Longrightarrow> has_property ob key"
  by (auto simp: for_in_keys_def has_property_def)


text \<open>
  The two tests of presence differ. An array's \<^verbatim>\<open>length\<close> is \<^verbatim>\<open>in\<close> the array, so a
  required Property member for it does not fail and checks its value; \<^verbatim>\<open>for ... in\<close>
  does not visit it, so an IndexSignature member of shape String does not test the number
  it holds, and the array \<^verbatim>\<open>["a"]\<close> is accepted.
\<close>

theorem index_signature_misses_length_counterexample:
  "validate (Suc (Suc 0)) (store [js_array [PString ''a'']]) (Ref 0)
     (ShapeValue (Object [Property ''length'' Number False, IndexSignature String])) = Some Pass
   \<and> has_property (store [js_array [PString ''a'']] 0) ''length''
   \<and> get_property (store [js_array [PString ''a'']] 0) ''length'' = JNumber 1
   \<and> walk (Suc 0) (store [js_array [PString ''a'']])
        (Object [Property ''length'' Number False, IndexSignature String])
        (JNumber 1) String ''root.length''
      = Some (Reject (Mismatch ''root.length'' (Text ''a string'') (JNumber 1)))"
  by (simp add: eval_simps object_simps Let_def)

text \<open>
  C7, as amended. The members of an Object shape are processed in declared order, and
  the first member that does not pass decides the result. A Property member whose key the
  \<^verbatim>\<open>in\<close> operator does not find on the record fails with the error "defined" at
  \<^verbatim>\<open>path.key\<close>, unless it is optional, in which case it passes without a test; when
  the key is found, its value is tested against the member's shape. An IndexSignature
  member passes exactly when the value of every key that \<^verbatim>\<open>for ... in\<close> visits on the
  record (every enumerable key) passes the index shape; each such key is also found by
  \<^verbatim>\<open>in\<close>. Nothing is deduplicated: when a Property member
  and an IndexSignature member both pass on a record that has the Property's key among
  the visited keys, that key's value passed both shapes.
\<close>

theorem object_members_in_declared_order:
  "(\<not> has_property ob key \<longrightarrow>
      member_step h w ob path (Property key s False)
        = Some (Reject (Mismatch (path @ ''.'' @ key) (Text ''defined'') (JString ''undefined'')))
      \<and> member_step h w ob path (Property key s True) = Some Pass)
   \<and> (has_property ob key \<longrightarrow>
      member_step h w ob path (Property key s opt) = w (get_property ob key) s (path @ ''.'' @ key))
   \<and> (member_step h w ob path (IndexSignature s) = Some Pass \<longleftrightarrow>
        (\<forall>k\<in>set (for_in_keys ob). w (get_property ob k) s (path @ ''.'' @ k) = Some Pass))
   \<and> (\<forall>k\<in>set (for_in_keys ob). has_property ob k)
   \<and> (key \<in> set (for_in_keys ob)
        \<and> member_loop h w ob path [Property key s opt, IndexSignature s'] = Some Pass
      \<longrightarrow> w (get_property ob key) s (path @ ''.'' @ key) = Some Pass
          \<and> w (get_property ob key) s' (path @ ''.'' @ key) = Some Pass)
   \<and> (member_loop h w ob path ms = Some Pass \<longleftrightarrow> (\<forall>m\<in>set ms. member_step h w ob path m = Some Pass))
   \<and> ((\<forall>m\<in>set ms1. member_step h w ob path m = Some Pass) \<and> member_step h w ob path m \<noteq> Some Pass
      \<longrightarrow> member_loop h w ob path (ms1 @ m # ms2) = member_step h w ob path m)
   \<and> validate (Suc (Suc n)) (store [js_object [(''a'', JNumber 5)]]) (Ref 0)
        (ShapeValue (Object [Property ''a'' Number False, IndexSignature String]))
      = Some (Reject (Mismatch ''root.a'' (Text ''a string'') (JNumber 5)))
   \<and> validate (Suc (Suc n)) (store [js_object [(''a'', JNumber 5)]]) (Ref 0)
        (ShapeValue (Object [IndexSignature String, Property ''b'' Number False]))
      = Some (Reject (Mismatch ''root.a'' (Text ''a string'') (JNumber 5)))
   \<and> validate (Suc (Suc n)) (store [js_object []]) (Ref 0)
        (ShapeValue (Object [Property ''a'' Number False]))
      = Some (Reject (Mismatch ''root.a'' (Text ''defined'') (JString ''undefined'')))
   \<and> is_T (Suc (Suc n)) (store [js_object []]) (Ref 0)
        (ShapeValue (Object [Property ''a'' Number True])) = Some (Inr True)"
proof (intro conjI impI)
  assume "key \<in> set (for_in_keys ob)
        \<and> member_loop h w ob path [Property key s opt, IndexSignature s'] = Some Pass"
  then have k: "key \<in> set (for_in_keys ob)" "has_property ob key"
    and p: "w (get_property ob key) s (path @ ''.'' @ key) = Some Pass"
    and i: "index_loop w ob s' path (for_in_keys ob) = Some Pass"
    by (auto simp: and_then_Some for_in_keys_present)
  from p show "w (get_property ob key) s (path @ ''.'' @ key) = Some Pass" .
  from i k(1) show "w (get_property ob key) s' (path @ ''.'' @ key) = Some Pass"
    by (simp add: index_loop_Pass_iff)
next
  assume "(\<forall>m\<in>set ms1. member_step h w ob path m = Some Pass) \<and> member_step h w ob path m \<noteq> Some Pass"
  then show "member_loop h w ob path (ms1 @ m # ms2) = member_step h w ob path m"
    by (intro member_loop_first_failure) auto
next
  show "member_loop h w ob path ms = Some Pass \<longleftrightarrow> (\<forall>m\<in>set ms. member_step h w ob path m = Some Pass)"
    by (rule member_loop_Pass_iff)
next
  show "member_step h w ob path (IndexSignature s) = Some Pass \<longleftrightarrow>
        (\<forall>k\<in>set (for_in_keys ob). w (get_property ob k) s (path @ ''.'' @ k) = Some Pass)"
    by (simp add: index_loop_Pass_iff)
next
  show "\<forall>k\<in>set (for_in_keys ob). has_property ob k"
    by (simp add: for_in_keys_present)
next
  assume "\<not> has_property ob key"
  then show "member_step h w ob path (Property key s False)
        = Some (Reject (Mismatch (path @ ''.'' @ key) (Text ''defined'') (JString ''undefined'')))"
    by (simp add: Let_def)
next
  assume "\<not> has_property ob key"
  then show "member_step h w ob path (Property key s True) = Some Pass"
    by (simp add: Let_def)
next
  assume "has_property ob key"
  then show "member_step h w ob path (Property key s opt) = w (get_property ob key) s (path @ ''.'' @ key)"
    by (simp add: Let_def)
qed (simp_all add: eval_simps object_simps)

theorem object_members_in_declared_order_witness:
  "member_step (store []) (\<lambda>d s p. walk (Suc 0) (store []) Unknown d s p) (js_object [(''a'', JNumber 5)]) ''root''
     (Property ''b'' Number False)
     = Some (Reject (Mismatch ''root.b'' (Text ''defined'') (JString ''undefined'')))
   \<and> member_step (store []) (\<lambda>d s p. walk (Suc 0) (store []) Unknown d s p) (js_object [(''a'', JNumber 5)]) ''root''
     (Property ''b'' Number True) = Some Pass
   \<and> member_step (store []) (\<lambda>d s p. walk (Suc 0) (store []) Unknown d s p) (js_object [(''a'', JNumber 5)]) ''root''
     (Property ''a'' Number False) = Some Pass
   \<and> member_step (store []) (\<lambda>d s p. walk (Suc 0) (store []) Unknown d s p) (js_object [(''a'', JNumber 5)]) ''root''
     (IndexSignature Number) = Some Pass
   \<and> member_loop (store []) (\<lambda>d s p. walk (Suc 0) (store []) Unknown d s p) (js_object [(''a'', JNumber 5)]) ''root''
     ([Property ''a'' Number False] @ IndexSignature String # [Property ''b'' Number False])
     = Some (Reject (Mismatch ''root.a'' (Text ''a string'') (JNumber 5)))
   \<and> walk (Suc 0) (store []) Unknown (JNumber 5) Number ''root.a'' = Some Pass
   \<and> walk (Suc 0) (store []) Unknown (JNumber 5) Unknown ''root.a'' = Some Pass"
proof -
  let ?w = "\<lambda>d s p. walk (Suc 0) (store []) Unknown d s p"
  let ?ob = "js_object [(''a'', JNumber 5)]"
  note t = object_members_in_declared_order
    [where h = "store []" and w = ?w and ob = ?ob and path = "''root''"]
  have nb: "\<not> has_property ?ob ''b''" by (simp add: object_simps js_object_def)
  have ha: "has_property ?ob ''a''" by (simp add: object_simps js_object_def)
  have ga: "get_property ?ob ''a'' = JNumber 5" by (simp add: object_simps js_object_def)
  have keys: "for_in_keys ?ob = [''a'']" by (simp add: object_simps js_object_def)
  from nb t [where key = "''b''" and s = Number]
  have 1: "member_step (store []) ?w ?ob ''root'' (Property ''b'' Number False)
             = Some (Reject (Mismatch (''root'' @ ''.'' @ ''b'') (Text ''defined'') (JString ''undefined'')))"
    and 2: "member_step (store []) ?w ?ob ''root'' (Property ''b'' Number True) = Some Pass"
    by blast+
  from ha t [where key = "''a''" and s = Number and opt = False]
  have "member_step (store []) ?w ?ob ''root'' (Property ''a'' Number False)
          = ?w (get_property ?ob ''a'') Number (''root'' @ ''.'' @ ''a'')"
    by blast
  then have 3: "member_step (store []) ?w ?ob ''root'' (Property ''a'' Number False) = Some Pass"
    by (simp add: ga)
  have "\<forall>k\<in>set (for_in_keys ?ob). ?w (get_property ?ob k) Number (''root'' @ ''.'' @ k) = Some Pass"
    by (simp add: keys ga)
  with t [where s = Number]
  have 4: "member_step (store []) ?w ?ob ''root'' (IndexSignature Number) = Some Pass"
    by blast
  have s5: "member_step (store []) ?w ?ob ''root'' (IndexSignature String)
              = Some (Reject (Mismatch ''root.a'' (Text ''a string'') (JNumber 5)))"
    by (simp add: keys ga fail_def)
  have "(\<forall>m\<in>set [Property ''a'' Number False]. member_step (store []) ?w ?ob ''root'' m = Some Pass)
          \<and> member_step (store []) ?w ?ob ''root'' (IndexSignature String) \<noteq> Some Pass"
    using 3 s5 by simp
  with t [where ?ms1.0 = "[Property ''a'' Number False]" and m = "IndexSignature String"
            and ?ms2.0 = "[Property ''b'' Number False]"]
  have "member_loop (store []) ?w ?ob ''root''
          ([Property ''a'' Number False] @ IndexSignature String # [Property ''b'' Number False])
        = member_step (store []) ?w ?ob ''root'' (IndexSignature String)"
    by blast
  with s5 have 5: "member_loop (store []) ?w ?ob ''root''
          ([Property ''a'' Number False] @ IndexSignature String # [Property ''b'' Number False])
        = Some (Reject (Mismatch ''root.a'' (Text ''a string'') (JNumber 5)))"
    by simp
  have "''a'' \<in> set (for_in_keys ?ob)
          \<and> member_loop (store []) ?w ?ob ''root'' [Property ''a'' Number False, IndexSignature Unknown] = Some Pass"
    by (simp add: keys ga ha Let_def)
  with t [where key = "''a''" and s = Number and opt = False and s' = Unknown]
  have "?w (get_property ?ob ''a'') Number (''root'' @ ''.'' @ ''a'') = Some Pass
          \<and> ?w (get_property ?ob ''a'') Unknown (''root'' @ ''.'' @ ''a'') = Some Pass"
    by blast
  then have 6: "walk (Suc 0) (store []) Unknown (JNumber 5) Number ''root.a'' = Some Pass
          \<and> walk (Suc 0) (store []) Unknown (JNumber 5) Unknown ''root.a'' = Some Pass"
    by (simp add: ga)
  from 1 2 3 4 5 6 show ?thesis by (simp add: fail_def)
qed

lemma walk_Object_index_array:
  assumes "enumerable (h a) = []"
  shows "walk (Suc n) h root (Ref a) (Object [IndexSignature s]) path
           = array_loop (\<lambda>d s p. walk n h root d s p) (elems (h a)) s path 0"
  using assms index_loop_array [of 0 "h a" "\<lambda>d s p. walk n h root d s p" s path]
  by (simp add: for_in_keys_def index_keys_def)

text \<open>
  C10. The admission test of an Object shape asks only that the data be truthy with
  \<^verbatim>\<open>typeof\<close> \<^verbatim>\<open>'object'\<close>, which holds exactly of the object references, and rejects
  every other value as not an object. It lets an array through: the result is that of the member loop on the array taken as a record. So the
  Object shape accepts the array whenever all its members pass on it: for example when
  all members are optional properties whose keys the array does not have, or when the
  only member is an IndexSignature and the array (with no further enumerable property)
  would pass the Array shape of the same element shape.
\<close>

theorem array_passes_object_admission:
  "((truthy data \<and> typeof data = TObject) = (\<exists>a. data = Ref a))
   \<and> (\<not> truthy data \<or> typeof data \<noteq> TObject
      \<longrightarrow> walk (Suc n) h root data (Object ms) path = Some (Reject (Mismatch path (Text ''an object'') data)))
   \<and> walk (Suc n) h root (Ref a) (Object ms) path
     = member_loop h (\<lambda>d s p. walk n h root d s p) (h a) path ms
   \<and> ((\<forall>m\<in>set ms. member_step h (\<lambda>d s p. walk n h root d s p) (h a) path m = Some Pass)
      \<longrightarrow> walk (Suc n) h root (Ref a) (Object ms) path = Some Pass)
   \<and> ((\<forall>m\<in>set ms. \<exists>key s. m = Property key s True \<and> \<not> has_property (h a) key)
      \<longrightarrow> walk (Suc n) h root (Ref a) (Object ms) path = Some Pass)
   \<and> (kind (h a) = ArrayObject \<and> enumerable (h a) = []
      \<longrightarrow> walk (Suc n) h root (Ref a) (Object [IndexSignature s]) path
            = walk (Suc n) h root (Ref a) (Array s) path)
   \<and> is_T (Suc (Suc n)) (store [js_array [PNumber 1, PNumber 2]]) (Ref 0)
        (ShapeValue (Object [Property ''x'' String True])) = Some (Inr True)
   \<and> is_T (Suc (Suc n)) (store [js_array [PNumber 1, PNumber 2]]) (Ref 0)
        (ShapeValue (Object [IndexSignature Number])) = Some (Inr True)
   \<and> is_T (Suc (Suc n)) (store [js_array [PNumber 1, PNumber 2]]) (Ref 0)
        (ShapeValue (Object [])) = Some (Inr True)
   \<and> validate (Suc (Suc n)) (store [js_array [PNumber 1, PString ''a'']]) (Ref 0)
        (ShapeValue (Object [IndexSignature Number]))
      = Some (Reject (Mismatch ''root.1'' (Text ''a number'') (JString ''a'')))"
proof (intro conjI impI)
  show "(truthy data \<and> typeof data = TObject) = (\<exists>a. data = Ref a)"
    by (cases data rule: typeof.cases) auto
next
  assume "\<not> truthy data \<or> typeof data \<noteq> TObject"
  then show "walk (Suc n) h root data (Object ms) path = Some (Reject (Mismatch path (Text ''an object'') data))"
    by (cases data rule: typeof.cases) auto
next
  assume "\<forall>m\<in>set ms. member_step h (\<lambda>d s p. walk n h root d s p) (h a) path m = Some Pass"
  then show "walk (Suc n) h root (Ref a) (Object ms) path = Some Pass"
    by (simp add: member_loop_Pass_iff)
next
  assume "\<forall>m\<in>set ms. \<exists>key s. m = Property key s True \<and> \<not> has_property (h a) key"
  then have "\<forall>m\<in>set ms. member_step h (\<lambda>d s p. walk n h root d s p) (h a) path m = Some Pass"
    by fastforce
  then show "walk (Suc n) h root (Ref a) (Object ms) path = Some Pass"
    by (simp add: member_loop_Pass_iff)
next
  assume "kind (h a) = ArrayObject \<and> enumerable (h a) = []"
  then show "walk (Suc n) h root (Ref a) (Object [IndexSignature s]) path
            = walk (Suc n) h root (Ref a) (Array s) path"
    using walk_Object_index_array [of h a n root s path] by simp
next
  show "is_T (Suc (Suc n)) (store [js_array [PNumber 1, PNumber 2]]) (Ref 0)
        (ShapeValue (Object [IndexSignature Number])) = Some (Inr True)"
    unfolding is_T_def validate.simps
    by (subst walk_Object_index_array) (simp_all add: store_def js_array_def)
next
  show "validate (Suc (Suc n)) (store [js_array [PNumber 1, PString ''a'']]) (Ref 0)
        (ShapeValue (Object [IndexSignature Number]))
      = Some (Reject (Mismatch ''root.1'' (Text ''a number'') (JString ''a'')))"
    unfolding validate.simps
    by (subst walk_Object_index_array) (simp_all add: eval_simps)
qed (simp_all add: eval_simps object_simps)


theorem array_passes_object_admission_witness:
  "walk (Suc (Suc 0)) (store [js_array [PNumber 1, PNumber 2]]) Unknown (Ref 0)
     (Object [Property ''x'' String True]) ''root'' = Some Pass
   \<and> walk (Suc (Suc 0)) (store [js_array [PNumber 1, PNumber 2]]) Unknown JNull
     (Object [Property ''x'' String True]) ''root'' = Some (Reject (Mismatch ''root'' (Text ''an object'') JNull))
   \<and> walk (Suc (Suc 0)) (store [js_array [PNumber 1, PNumber 2]]) Unknown (Ref 0)
     (Object [IndexSignature Number]) ''root'' = Some Pass"
proof -
  let ?h = "store [js_array [PNumber 1, PNumber 2]]"
  note t = array_passes_object_admission [where n = "Suc 0" and h = ?h and a = 0 and root = Unknown
             and path = "''root''"]
  have nx: "\<not> has_property (?h 0) ''x''"
    by (simp add: store_def js_array_def object_simps string_of_nat.simps digit_char_def)
  then have 1: "\<forall>m\<in>set [Property ''x'' String True]. \<exists>key s. m = Property key s True \<and> \<not> has_property (?h 0) key"
    by simp
  from 1 t [where ms = "[Property ''x'' String True]"]
  have a: "walk (Suc (Suc 0)) ?h Unknown (Ref 0) (Object [Property ''x'' String True]) ''root'' = Some Pass"
    by blast
  have 2: "kind (?h 0) = ArrayObject \<and> enumerable (?h 0) = []"
    by (simp add: store_def js_array_def)
  have 3: "walk (Suc (Suc 0)) ?h Unknown (Ref 0) (Array Number) ''root'' = Some Pass"
    by (simp add: store_def js_array_def)
  from 2 t [where s = Number]
  have "walk (Suc (Suc 0)) ?h Unknown (Ref 0) (Object [IndexSignature Number]) ''root''
          = walk (Suc (Suc 0)) ?h Unknown (Ref 0) (Array Number) ''root''"
    by blast
  with 3 have b: "walk (Suc (Suc 0)) ?h Unknown (Ref 0) (Object [IndexSignature Number]) ''root'' = Some Pass"
    by simp
  have 4: "\<not> truthy JNull \<or> typeof JNull \<noteq> TObject" by simp
  from 4 t [where data = JNull and ms = "[Property ''x'' String True]"]
  have "walk (Suc (Suc 0)) ?h Unknown JNull (Object [Property ''x'' String True]) ''root''
          = Some (Reject (Mismatch ''root'' (Text ''an object'') JNull))"
    by blast
  then have c: "walk (Suc (Suc 0)) ?h Unknown JNull (Object [Property ''x'' String True]) ''root''
          = Some (Reject (Mismatch ''root'' (Text ''an object'') JNull))"
    by (simp add: fail_def)
  from a b c show ?thesis by blast
qed


section \<open>References and termination\<close>

lemma resolve_from_append:
  "resolve_from t (p @ q) = (case resolve_from t p of None \<Rightarrow> None | Some t' \<Rightarrow> resolve_from t' q)"
  by (induction p arbitrary: t) (auto split: option.splits)

lemma resolve_positions:
  "resolve root [] = Some (NShape root)"
  "i < length options \<Longrightarrow> resolve (Union options) [int i + 1] = Some (NShape (options ! i))"
  "i < length members \<Longrightarrow> resolve (Intersection members) [int i + 1] = Some (NShape (members ! i))"
  "resolve (Array s) [1] = Some (NShape s)"
  "i < length ms \<Longrightarrow> ms ! i = Property key s opt \<Longrightarrow> resolve (Object ms) [int i + 1, 2] = Some (NShape s)"
  "i < length ms \<Longrightarrow> ms ! i = IndexSignature s \<Longrightarrow> resolve (Object ms) [int i + 1, 1] = Some (NShape s)"
  "i < length items \<Longrightarrow> resolve (Tuple items) [int i + 1, 0] = Some (NShape (fst (items ! i)))"
proof -
  show "resolve root [] = Some (NShape root)" by (simp add: resolve_def)
  show "i < length options \<Longrightarrow> resolve (Union options) [int i + 1] = Some (NShape (options ! i))"
    by (simp add: resolve_def nat_add_distrib)
  show "i < length members \<Longrightarrow> resolve (Intersection members) [int i + 1] = Some (NShape (members ! i))"
    by (simp add: resolve_def nat_add_distrib)
  show "resolve (Array s) [1] = Some (NShape s)" by (simp add: resolve_def)
  show "i < length ms \<Longrightarrow> ms ! i = Property key s opt \<Longrightarrow> resolve (Object ms) [int i + 1, 2] = Some (NShape s)"
    by (simp add: resolve_def nat_add_distrib)
  show "i < length ms \<Longrightarrow> ms ! i = IndexSignature s \<Longrightarrow> resolve (Object ms) [int i + 1, 1] = Some (NShape s)"
    by (simp add: resolve_def nat_add_distrib)
  show "i < length items \<Longrightarrow> resolve (Tuple items) [int i + 1, 0] = Some (NShape (fst (items ! i)))"
    by (cases "items ! i", cases "snd (items ! i)") (simp_all add: resolve_def nat_add_distrib)
qed


lemma walk_list_node:
  assumes "has_property (h a) ''value''" "typeof (get_property (h a) ''value'') = TNumber"
    and "has_property (h a) ''next''"
  shows "walk (Suc (Suc (Suc n))) h linked_list_shape (Ref a) linked_list_shape p =
     (case walk n h linked_list_shape (get_property (h a) ''next'') linked_list_shape (p @ ''.next'') of
        None \<Rightarrow> None
      | Some Pass \<Rightarrow> Some Pass
      | Some (Reject e) \<Rightarrow>
          (if stringifies (h a)
           then Some (Reject (NoBranch p [e, Mismatch p (LiteralText PNull) (Ref a)]))
           else Some (Throw TypeError))
      | Some (Throw t) \<Rightarrow> Some (Throw t))"
proof -
  have r: "resolve linked_list_shape [] = Some (NShape linked_list_shape)"
    by (simp add: resolve_def)
  have "walk (Suc (Suc (Suc n))) h linked_list_shape (Ref a)
          (Union [Object [Property ''value'' Number False, Property ''next'' (Reference []) False],
                  Literal PNull]) p =
     (case walk n h linked_list_shape (get_property (h a) ''next'') linked_list_shape (p @ ''.next'') of
        None \<Rightarrow> None
      | Some Pass \<Rightarrow> Some Pass
      | Some (Reject e) \<Rightarrow>
          (if stringifies (h a)
           then Some (Reject (NoBranch p [e, Mismatch p (LiteralText PNull) (Ref a)]))
           else Some (Throw TypeError))
      | Some (Throw t) \<Rightarrow> Some (Throw t))"
    using assms r by (simp add: Let_def fail_def split: option.splits verdict.splits)
  then show ?thesis by (simp add: linked_list_shape_def [symmetric])
qed



lemma walk_list_prim:
  "walk (Suc (Suc n)) h linked_list_shape (Prim q) linked_list_shape p =
     Some (if q = PNull then Pass
           else Reject (NoBranch p [Mismatch p (Text ''an object'') (Prim q), Mismatch p (LiteralText PNull) (Prim q)]))"
  by (cases q) (simp_all add: linked_list_shape_def fail_def)

lemma chain_node:
  "has_property (chain k t a) ''value''" "typeof (get_property (chain k t a) ''value'') = TNumber"
  "has_property (chain k t a) ''next''"
  "get_property (chain k t a) ''next'' = (if Suc a < k then Ref (Suc a) else t)"
  "stringifies (chain k t a)"
  by (simp_all add: chain_def js_object_def object_simps)

lemma chain_accepted:
  "a < k \<Longrightarrow> 3 * (k - a) + 2 \<le> n \<Longrightarrow>
     walk n (chain k JNull) linked_list_shape (Ref a) linked_list_shape p = Some Pass"
proof (induction "k - a" arbitrary: a n p)
  case 0
  then show ?case by simp
next
  case (Suc d)
  from Suc.prems obtain n' where n: "n = Suc (Suc (Suc n'))" and n': "3 * (k - Suc a) + 2 \<le> n'"
    by (cases n; cases "n - 1"; cases "n - 2") auto
  have "walk n' (chain k JNull) linked_list_shape (if Suc a < k then Ref (Suc a) else JNull)
          linked_list_shape (p @ ''.next'') = Some Pass"
  proof (cases "Suc a < k")
    case True
    have "walk n' (chain k JNull) linked_list_shape (Ref (Suc a)) linked_list_shape (p @ ''.next'') = Some Pass"
      using Suc.hyps(2) True n' by (intro Suc.hyps(1)) simp_all
    with True show ?thesis by simp
  next
    case False
    from n' obtain m where "n' = Suc (Suc m)" by (cases n'; cases "n' - 1") auto
    with False show ?thesis by (simp add: walk_list_prim)
  qed
  then show ?case
    unfolding n by (simp add: walk_list_node chain_node)
qed

lemma chain_rejected:
  "q \<noteq> PNull \<Longrightarrow> a < k \<Longrightarrow> 3 * (k - a) + 2 \<le> n \<Longrightarrow>
     \<exists>e. walk n (chain k (Prim q)) linked_list_shape (Ref a) linked_list_shape p = Some (Reject e)"
proof (induction "k - a" arbitrary: a n p)
  case 0
  then show ?case by simp
next
  case (Suc d)
  from Suc.prems obtain n' where n: "n = Suc (Suc (Suc n'))" and n': "3 * (k - Suc a) + 2 \<le> n'"
    by (cases n; cases "n - 1"; cases "n - 2") auto
  have "\<exists>e. walk n' (chain k (Prim q)) linked_list_shape (if Suc a < k then Ref (Suc a) else Prim q)
          linked_list_shape (p @ ''.next'') = Some (Reject e)"
  proof (cases "Suc a < k")
    case True
    have "\<exists>e. walk n' (chain k (Prim q)) linked_list_shape (Ref (Suc a)) linked_list_shape (p @ ''.next'')
            = Some (Reject e)"
      using Suc.hyps(2) True n' Suc.prems(1) by (intro Suc.hyps(1)) simp_all
    with True show ?thesis by simp
  next
    case False
    from n' obtain m where "n' = Suc (Suc m)" by (cases n'; cases "n' - 1") auto
    with False Suc.prems(1) show ?thesis by (simp add: walk_list_prim)
  qed
  then show ?case
    unfolding n by (auto simp add: walk_list_node chain_node)
qed






























text \<open>
  C8. A Reference is resolved from the root by indexing along its path, position by
  position in the run-time arrays: the empty path is the root, \<open>i + 1\<close> is option or
  member \<open>i\<close> of a Union or an Intersection, \<open>1\<close> the element shape of an Array,
  \<open>i + 1\<close> then \<open>2\<close> (or \<open>1\<close>) the shape of Property (or IndexSignature) member
  \<open>i\<close> of an Object, \<open>i + 1\<close> then \<open>0\<close> the shape of item \<open>i\<close> of a Tuple, and
  paths compose. \<^verbatim>\<open>walk\<close> then goes on in the resolved shape with the same data and the
  same path, so an error names the place of the data (\<^verbatim>\<open>root.b.0\<close>,
  \<^verbatim>\<open>root.next.value\<close>), not the place of the shape. With the self-referential
  linked-list shape, a chain of any length \<open>k\<close> that ends in \<^verbatim>\<open>null\<close> is accepted and
  one that ends in another primitive, or holds an ill-shaped node, is rejected.
\<close>

theorem reference_resolved_by_position:
  "resolve root [] = Some (NShape root)
   \<and> (i < length options \<longrightarrow> resolve (Union options) [int i + 1] = Some (NShape (options ! i)))
   \<and> (i < length options \<longrightarrow> resolve (Intersection options) [int i + 1] = Some (NShape (options ! i)))
   \<and> resolve (Array s) [1] = Some (NShape s)
   \<and> (i < length ms \<and> ms ! i = Property key s opt
      \<longrightarrow> resolve (Object ms) [int i + 1, 2] = Some (NShape s))
   \<and> (i < length ms \<and> ms ! i = IndexSignature s
      \<longrightarrow> resolve (Object ms) [int i + 1, 1] = Some (NShape s))
   \<and> (i < length items \<longrightarrow> resolve (Tuple items) [int i + 1, 0] = Some (NShape (fst (items ! i))))
   \<and> (resolve root rootPath = Some (NShape target)
      \<longrightarrow> resolve root (rootPath @ rest) = resolve target rest)
   \<and> (resolve root rootPath = Some (NShape target)
      \<longrightarrow> walk (Suc n) h root data (Reference rootPath) path = walk n h root data target path)
   \<and> (0 < k \<and> 3 * k + 2 \<le> m
      \<longrightarrow> is_T m (chain k JNull) (Ref 0) (ShapeValue linked_list_shape) = Some (Inr True))
   \<and> (0 < k \<and> 3 * k + 2 \<le> m \<and> q \<noteq> PNull
      \<longrightarrow> is_T m (chain k (Prim q)) (Ref 0) (ShapeValue linked_list_shape) = Some (Inr False))
   \<and> validate (Suc (Suc (Suc (Suc (Suc (Suc n))))))
        (store [js_object [(''value'', JNumber 1), (''next'', Ref 1)],
                js_object [(''value'', JString ''bad''), (''next'', JNull)]])
        (Ref 0) (ShapeValue linked_list_shape)
      = Some (Reject (NoBranch ''root''
          [NoBranch ''root.next''
             [Mismatch ''root.next.value'' (Text ''a number'') (JString ''bad''),
              Mismatch ''root.next'' (LiteralText PNull) (Ref 1)],
           Mismatch ''root'' (LiteralText PNull) (Ref 0)]))
   \<and> validate (Suc (Suc (Suc (Suc n))))
        (store [js_object [(''a'', Ref 1), (''b'', Ref 2)], js_array [PNumber 1], js_array [PString ''x'']])
        (Ref 0)
        (ShapeValue (Object [Property ''a'' (Array Number) False, Property ''b'' (Reference [1, 2]) False]))
      = Some (Reject (Mismatch ''root.b.0'' (Text ''a number'') (JString ''x'')))"
proof (intro conjI impI)
  assume "resolve root rootPath = Some (NShape target)"
  then show "resolve root (rootPath @ rest) = resolve target rest"
    by (simp add: resolve_def resolve_from_append)
next
  assume "resolve root rootPath = Some (NShape target)"
  then show "walk (Suc n) h root data (Reference rootPath) path = walk n h root data target path"
    by simp
next
  assume "0 < k \<and> 3 * k + 2 \<le> m"
  then show "is_T m (chain k JNull) (Ref 0) (ShapeValue linked_list_shape) = Some (Inr True)"
    using chain_accepted [of 0 k m "''root''"] by (simp add: is_T_def)
next
  assume "0 < k \<and> 3 * k + 2 \<le> m \<and> q \<noteq> PNull"
  then show "is_T m (chain k (Prim q)) (Ref 0) (ShapeValue linked_list_shape) = Some (Inr False)"
    using chain_rejected [of q 0 k m "''root''"] by (auto simp add: is_T_def)
next
  show "validate (Suc (Suc (Suc (Suc (Suc (Suc n))))))
        (store [js_object [(''value'', JNumber 1), (''next'', Ref 1)],
                js_object [(''value'', JString ''bad''), (''next'', JNull)]])
        (Ref 0) (ShapeValue linked_list_shape)
      = Some (Reject (NoBranch ''root''
          [NoBranch ''root.next''
             [Mismatch ''root.next.value'' (Text ''a number'') (JString ''bad''),
              Mismatch ''root.next'' (LiteralText PNull) (Ref 1)],
           Mismatch ''root'' (LiteralText PNull) (Ref 0)]))"
    by (simp add: linked_list_shape_def store_def js_object_def object_simps fail_def Let_def resolve_def)
next
  show "validate (Suc (Suc (Suc (Suc n))))
        (store [js_object [(''a'', Ref 1), (''b'', Ref 2)], js_array [PNumber 1], js_array [PString ''x'']])
        (Ref 0)
        (ShapeValue (Object [Property ''a'' (Array Number) False, Property ''b'' (Reference [1, 2]) False]))
      = Some (Reject (Mismatch ''root.b.0'' (Text ''a number'') (JString ''x'')))"
    by (simp add: eval_simps object_simps Let_def resolve_def)
qed (simp_all add: resolve_positions)

theorem reference_resolved_by_position_witness:
  "resolve (Union [String, Number]) [1] = Some (NShape String)
   \<and> resolve (Object [Property ''a'' (Array Number) False]) [1, 2] = Some (NShape (Array Number))
   \<and> resolve (Object [Property ''a'' (Array Number) False]) [1, 2, 1] = Some (NShape Number)
   \<and> walk (Suc (Suc 0)) (store []) (Array Number) (JNumber 1) (Reference [1]) ''root.x'' = Some Pass
   \<and> is_T 8 (chain 2 JNull) (Ref 0) (ShapeValue linked_list_shape) = Some (Inr True)
   \<and> is_T 8 (chain 2 (JString ''x'')) (Ref 0) (ShapeValue linked_list_shape) = Some (Inr False)"
proof -
  note t = reference_resolved_by_position
  have a: "resolve (Union [String, Number]) [1] = Some (NShape String)"
    using t [where i = 0 and options = "[String, Number]"] by simp
  have b: "resolve (Object [Property ''a'' (Array Number) False]) [1, 2] = Some (NShape (Array Number))"
    using t [where i = 0 and ms = "[Property ''a'' (Array Number) False]" and key = "''a''"
               and s = "Array Number" and opt = False] by simp
  have c0: "resolve (Array Number) [1] = Some (NShape Number)"
    using t [where s = Number] by blast
  from b t [where root = "Object [Property ''a'' (Array Number) False]" and rootPath = "[1, 2]"
              and target = "Array Number" and rest = "[1]"]
  have "resolve (Object [Property ''a'' (Array Number) False]) ([1, 2] @ [1]) = resolve (Array Number) [1]"
    by blast
  with c0 have c: "resolve (Object [Property ''a'' (Array Number) False]) [1, 2, 1] = Some (NShape Number)"
    by simp
  from c0 t [where root = "Array Number" and rootPath = "[1]" and target = Number and n = "Suc 0"
               and h = "store []" and data = "JNumber 1" and path = "''root.x''"]
  have "walk (Suc (Suc 0)) (store []) (Array Number) (JNumber 1) (Reference [1]) ''root.x''
          = walk (Suc 0) (store []) (Array Number) (JNumber 1) Number ''root.x''"
    by blast
  then have d: "walk (Suc (Suc 0)) (store []) (Array Number) (JNumber 1) (Reference [1]) ''root.x'' = Some Pass"
    by simp
  have e: "is_T 8 (chain 2 JNull) (Ref 0) (ShapeValue linked_list_shape) = Some (Inr True)"
    using t [where k = 2 and m = 8] by simp
  have f: "is_T 8 (chain 2 (JString ''x'')) (Ref 0) (ShapeValue linked_list_shape) = Some (Inr False)"
    using t [where k = 2 and m = 8 and q = "PString ''x''"] by simp
  from a b c d e f show ?thesis by blast
qed





end
